theory Spec2Isabelle
  imports Complex_Main "HOL-Library.Sublist" "HOL-Library.Char_ord" "HOL-Library.List_Lexorder"
begin

section \<open>Numbers\<close>

text \<open>
  A TypeScript \<open>number\<close> is a double. Here it is a real that stands for itself, or one of
  the three values that are not finite. The result of every arithmetic operation is
  brought into the range of doubles by \<open>dbl\<close>: a magnitude of \<open>2^1024\<close> or more is an
  infinity, a magnitude of at most \<open>2^-1075\<close>, half the least positive double, is zero.
  Inside the range the result is the exact one: rounding is not modelled, nor is the
  sign of zero (\<open>Num 0\<close> stands for both zeros and is treated as the positive one).

  The numbers that the store holds under the schemas of \<open>models/types.ts\<close> as inputs
  (costs, priorities, a configured half-life) are reals; what the program computes
  (weights, revenues, sums, quotients) is a \<open>jsnum\<close>.
\<close>

datatype jsnum = Num real | PosInf | NegInf | NaN

definition dbl_max :: real where
  "dbl_max = 2 ^ 1024"

definition dbl_min :: real where
  "dbl_min = 1 / 2 ^ 1075"

definition dbl :: "real \<Rightarrow> jsnum" where
  "dbl r =
     (if dbl_max \<le> r then PosInf
      else if r \<le> - dbl_max then NegInf
      else if \<bar>r\<bar> \<le> dbl_min then Num 0
      else Num r)"

fun js_add :: "jsnum \<Rightarrow> jsnum \<Rightarrow> jsnum" where
  "js_add (Num a) (Num b) = dbl (a + b)"
| "js_add NaN _ = NaN"
| "js_add _ NaN = NaN"
| "js_add PosInf NegInf = NaN"
| "js_add NegInf PosInf = NaN"
| "js_add PosInf _ = PosInf"
| "js_add _ PosInf = PosInf"
| "js_add NegInf _ = NegInf"
| "js_add _ NegInf = NegInf"

fun js_neg :: "jsnum \<Rightarrow> jsnum" where
  "js_neg (Num a) = Num (- a)"
| "js_neg PosInf = NegInf"
| "js_neg NegInf = PosInf"
| "js_neg NaN = NaN"

definition js_sub :: "jsnum \<Rightarrow> jsnum \<Rightarrow> jsnum" where
  "js_sub a b = js_add a (js_neg b)"

text \<open>An infinity with the sign of \<open>s\<close>, where \<open>s\<close> is not zero.\<close>

definition js_inf :: "real \<Rightarrow> jsnum" where
  "js_inf s = (if 0 < s then PosInf else NegInf)"

fun js_mul :: "jsnum \<Rightarrow> jsnum \<Rightarrow> jsnum" where
  "js_mul (Num a) (Num b) = dbl (a * b)"
| "js_mul NaN _ = NaN"
| "js_mul _ NaN = NaN"
| "js_mul PosInf (Num b) = (if b = 0 then NaN else js_inf b)"
| "js_mul NegInf (Num b) = (if b = 0 then NaN else js_inf (- b))"
| "js_mul (Num a) PosInf = (if a = 0 then NaN else js_inf a)"
| "js_mul (Num a) NegInf = (if a = 0 then NaN else js_inf (- a))"
| "js_mul PosInf PosInf = PosInf"
| "js_mul NegInf NegInf = PosInf"
| "js_mul PosInf NegInf = NegInf"
| "js_mul NegInf PosInf = NegInf"

fun js_div :: "jsnum \<Rightarrow> jsnum \<Rightarrow> jsnum" where
  "js_div (Num a) (Num b) =
     (if b = 0 then (if a = 0 then NaN else js_inf a) else dbl (a / b))"
| "js_div NaN _ = NaN"
| "js_div _ NaN = NaN"
| "js_div (Num a) PosInf = Num 0"
| "js_div (Num a) NegInf = Num 0"
| "js_div PosInf (Num b) = (if 0 \<le> b then PosInf else NegInf)"
| "js_div NegInf (Num b) = (if 0 \<le> b then NegInf else PosInf)"
| "js_div PosInf _ = NaN"
| "js_div NegInf _ = NaN"

text \<open>\<open>Math.pow(0.5, x)\<close>\<close>

fun js_pow_half :: "jsnum \<Rightarrow> jsnum" where
  "js_pow_half (Num x) = dbl ((1 / 2) powr x)"
| "js_pow_half PosInf = Num 0"
| "js_pow_half NegInf = PosInf"
| "js_pow_half NaN = NaN"

text \<open>\<open>x > 0\<close>; a comparison with \<open>NaN\<close> is false.\<close>

fun js_gt0 :: "jsnum \<Rightarrow> bool" where
  "js_gt0 (Num a) = (0 < a)"
| "js_gt0 PosInf = True"
| "js_gt0 NegInf = False"
| "js_gt0 NaN = False"

text \<open>
  Two sets of numbers that the proofs about the weights use: the doubles that are not
  negative, \<open>Infinity\<close> included, and the numbers that are \<open>NaN\<close> or lie between 0 and 1.
\<close>

definition nonneg_dbl :: "jsnum \<Rightarrow> bool" where
  "nonneg_dbl v = (v = PosInf \<or> (\<exists>r. v = Num r \<and> (r = 0 \<or> dbl_min < r)))"

definition unit_weight :: "jsnum \<Rightarrow> bool" where
  "unit_weight w = (w = NaN \<or> (\<exists>x. w = Num x \<and> 0 \<le> x \<and> x \<le> 1))"

section \<open>Strings\<close>

text \<open>
  A string is a list of 8-bit characters, read as the code units \<open>U+0000\<close> to \<open>U+00FF\<close>;
  a string with another code unit is outside the model. In this range \<open>toLowerCase\<close>
  maps \<open>A\<close> to \<open>Z\<close> and the capital letters \<open>U+00C0\<close> to \<open>U+00DE\<close> (without the
  multiplication sign \<open>U+00D7\<close>) to the letter 32 places up. \<open>toUpperCase\<close> maps \<open>a\<close> to
  \<open>z\<close> and the small letters \<open>U+00E0\<close> to \<open>U+00FE\<close> (without the division sign
  \<open>U+00F7\<close>) to the letter 32 places down and the sharp s \<open>U+00DF\<close> to \<open>SS\<close>; the
  capitals of \<open>U+00B5\<close> and \<open>U+00FF\<close> lie outside the range, and these two
  characters are left as they are. The whitespace class \<open>\s\<close> is tab, line feed,
  vertical tab, form feed, carriage return, space and the no-break space.
\<close>

definition lower_char :: "char \<Rightarrow> char" where
  "lower_char c =
     (let n = (of_char c :: nat)
      in if (65 \<le> n \<and> n \<le> 90) \<or> (192 \<le> n \<and> n \<le> 222 \<and> n \<noteq> 215)
         then char_of (n + 32) else c)"

definition upper_char :: "char \<Rightarrow> string" where
  "upper_char c =
     (let n = (of_char c :: nat)
      in if (97 \<le> n \<and> n \<le> 122) \<or> (224 \<le> n \<and> n \<le> 254 \<and> n \<noteq> 247)
         then [char_of (n - 32)]
         else if n = 223 then ''SS'' else [c])"

definition toLowerCase :: "string \<Rightarrow> string" where
  "toLowerCase s = map lower_char s"

definition toUpperCase :: "string \<Rightarrow> string" where
  "toUpperCase s = concat (map upper_char s)"

definition is_space :: "char \<Rightarrow> bool" where
  "is_space c = (let n = (of_char c :: nat) in (9 \<le> n \<and> n \<le> 13) \<or> n = 32 \<or> n = 160)"

definition trim :: "string \<Rightarrow> string" where
  "trim s = rev (dropWhile is_space (rev (dropWhile is_space s)))"

text \<open>\<open>s.includes(t)\<close>, \<open>s.startsWith(t)\<close> and \<open>s.endsWith(t)\<close>.\<close>

fun str_includes :: "string \<Rightarrow> string \<Rightarrow> bool" where
  "str_includes [] t = (t = [])"
| "str_includes (c # cs) t = (prefix t (c # cs) \<or> str_includes cs t)"

definition startsWith :: "string \<Rightarrow> string \<Rightarrow> bool" where
  "startsWith s t = prefix t s"

definition endsWith :: "string \<Rightarrow> string \<Rightarrow> bool" where
  "endsWith s t = suffix t s"

text \<open>A string in a condition is truthy when it is not empty; \<open>undefined\<close> is falsy.\<close>

fun truthy :: "string option \<Rightarrow> bool" where
  "truthy None = False"
| "truthy (Some s) = (s \<noteq> [])"

section \<open>Data model (\<open>models/types.ts\<close>)\<close>

datatype utm_field = Utm_source | Utm_medium | Utm_campaign | Utm_term | Utm_content

text \<open>\<open>UTMParams\<close>: five optional string fields; an absent field is \<open>None\<close>.\<close>

type_synonym UTMParams = "utm_field \<Rightarrow> string option"

datatype match_type = Exact | Contains | Regex | StartsWith | EndsWith

record NormalizationRule =
  nr_id :: string
  nr_field :: utm_field
  matchType :: match_type
  matchValue :: string
  normalizedValue :: string
  nr_priority :: real
  nr_isActive :: bool

record SourceMapping =
  sm_id :: string
  utmSource :: string
  utmMedium :: "string option"
  sm_source :: string
  sm_sourceDetail :: string
  sm_channel :: string
  sm_priority :: real
  sm_isActive :: bool

datatype cost_period = Daily | Weekly | Monthly

record ChannelCost =
  cc_id :: string
  cc_channel :: string
  cc_source :: "string option"
  cc_sourceDetail :: "string option"
  cost :: real
  period :: cost_period
  cc_startDate :: string
  cc_endDate :: string
  currency :: string

text \<open>
  The \<open>timestamp\<close> of a record or event is kept as the value that
  \<open>new Date(timestamp).getTime()\<close> reads from it: milliseconds since the epoch.
\<close>

record UTMRecord =
  tp_id :: string
  tp_contactId :: "string option"
  tp_dealId :: "string option"
  originalParams :: UTMParams
  normalizedParams :: UTMParams
  tp_source :: string
  tp_sourceDetail :: string
  tp_channel :: string
  tp_timestamp :: int
  tp_revenue :: real

datatype AttributionModel = First_touch | Last_touch | Linear | Time_decay

record AttributionEvent =
  ev_id :: string
  ev_contactId :: string
  ev_dealId :: "string option"
  utmRecordId :: string
  ev_channel :: string
  ev_source :: string
  ev_sourceDetail :: string
  attributionModel :: AttributionModel
  attributionWeight :: jsnum
  ev_revenue :: jsnum
  ev_timestamp :: int

record AttributionConfig =
  model :: AttributionModel
  timeDecayHalfLife :: "real option"

section \<open>The store (\<open>models/store.ts\<close>)\<close>

text \<open>
  Each \<open>Map\<close> of the store is the list of its values in insertion order, which is
  what \<open>Array.from(map.values())\<close> reads.
\<close>

record DataStore =
  normalizationRules :: "NormalizationRule list"
  sourceMappings :: "SourceMapping list"
  channelCosts :: "ChannelCost list"
  utmRecords :: "UTMRecord list"
  attributionEvents :: "AttributionEvent list"

text \<open>
  \<open>Array.prototype.sort\<close> is stable, and the comparators of the store order by a
  numeric key, so its result is the one of a stable insertion sort, where \<open>x\<close> goes
  before the first \<open>y\<close> it does not have to follow (\<open>cmp x y \<le> 0\<close>).
\<close>

fun js_insert :: "('a \<Rightarrow> 'a \<Rightarrow> real) \<Rightarrow> 'a \<Rightarrow> 'a list \<Rightarrow> 'a list" where
  "js_insert cmp x [] = [x]"
| "js_insert cmp x (y # ys) = (if cmp x y \<le> 0 then x # y # ys else y # js_insert cmp x ys)"

definition js_sort :: "('a \<Rightarrow> 'a \<Rightarrow> real) \<Rightarrow> 'a list \<Rightarrow> 'a list" where
  "js_sort cmp xs = foldr (js_insert cmp) xs []"

definition getAllNormalizationRules :: "DataStore \<Rightarrow> NormalizationRule list" where
  "getAllNormalizationRules st =
     js_sort (\<lambda>a b. nr_priority b - nr_priority a) (filter nr_isActive (normalizationRules st))"

definition getAllSourceMappings :: "DataStore \<Rightarrow> SourceMapping list" where
  "getAllSourceMappings st =
     js_sort (\<lambda>a b. sm_priority b - sm_priority a) (filter sm_isActive (sourceMappings st))"

definition getChannelCostsByChannel :: "DataStore \<Rightarrow> string \<Rightarrow> ChannelCost list" where
  "getChannelCostsByChannel st ch = filter (\<lambda>c. cc_channel c = ch) (channelCosts st)"

definition getChannelCostsInRange :: "DataStore \<Rightarrow> string \<Rightarrow> string \<Rightarrow> ChannelCost list" where
  "getChannelCostsInRange st startDate endDate =
     filter (\<lambda>c. startDate \<le> cc_startDate c \<and> cc_endDate c \<le> endDate) (channelCosts st)"

definition getUTMRecordsByContact :: "DataStore \<Rightarrow> string \<Rightarrow> UTMRecord list" where
  "getUTMRecordsByContact st contactId =
     js_sort (\<lambda>a b. real_of_int (tp_timestamp a) - real_of_int (tp_timestamp b))
       (filter (\<lambda>r. tp_contactId r = Some contactId) (utmRecords st))"

text \<open>\<open>Map.set\<close>: an existing key keeps its place and gets the new value, a new key is appended.\<close>

definition addAttributionEvent :: "AttributionEvent \<Rightarrow> DataStore \<Rightarrow> DataStore" where
  "addAttributionEvent e st =
     st\<lparr>attributionEvents :=
       (if ev_id e \<in> ev_id ` set (attributionEvents st)
        then map (\<lambda>x. if ev_id x = ev_id e then e else x) (attributionEvents st)
        else attributionEvents st @ [e])\<rparr>"

definition getAllAttributionEvents :: "DataStore \<Rightarrow> AttributionEvent list" where
  "getAllAttributionEvents st = attributionEvents st"

definition getAttributionEventsByContact :: "DataStore \<Rightarrow> string \<Rightarrow> AttributionEvent list" where
  "getAttributionEventsByContact st contactId =
     filter (\<lambda>e. ev_contactId e = contactId) (attributionEvents st)"

definition getAttributionEventsByChannel :: "DataStore \<Rightarrow> string \<Rightarrow> AttributionEvent list" where
  "getAttributionEventsByChannel st ch = filter (\<lambda>e. ev_channel e = ch) (attributionEvents st)"

section \<open>Attribution (\<open>services/attribution.ts\<close>)\<close>

text \<open>
  What the service reads from its surroundings: the clock when the weights are
  computed, and for the \<open>k\<close>-th event it emits the identifier \<open>randomUUID()\<close> returns
  and the clock at that moment.
\<close>

record runtime =
  now :: int
  uuid :: "nat \<Rightarrow> string"
  stamp :: "nat \<Rightarrow> int"

definition firstTouchWeights :: "nat \<Rightarrow> jsnum list" where
  "firstTouchWeights n =
     (let weights = replicate n (Num 0) in if 0 < n then weights[0 := Num 1] else weights)"

definition lastTouchWeights :: "nat \<Rightarrow> jsnum list" where
  "lastTouchWeights n =
     (let weights = replicate n (Num 0) in if 0 < n then weights[n - 1 := Num 1] else weights)"

definition linearWeights :: "nat \<Rightarrow> jsnum list" where
  "linearWeights n =
     (if n = 0 then [] else let weight = js_div (Num 1) (Num (real n)) in replicate n weight)"

text \<open>
  The age is a difference of two time values, whole numbers of milliseconds that doubles
  hold exactly. The half-life in milliseconds, the exponent, the power, the sum of the
  raw weights and the quotients are double operations: a raw weight is 0 when the
  exponent is 1075 or more, and \<open>Infinity\<close> when it is -1024 or less; a total of 0
  or of \<open>Infinity\<close> makes quotients \<open>NaN\<close>.
\<close>

definition timeDecayWeights :: "int \<Rightarrow> UTMRecord list \<Rightarrow> real \<Rightarrow> jsnum list" where
  "timeDecayWeights nowMs touchpoints halfLifeDays =
     (if length touchpoints = 0 then []
      else
        let halfLifeMs =
              js_mul (js_mul (js_mul (js_mul (Num halfLifeDays) (Num 24)) (Num 60)) (Num 60)) (Num 1000);
            rawWeights =
              map (\<lambda>tp. let ageMs = Num (real_of_int (nowMs - tp_timestamp tp))
                        in js_pow_half (js_div ageMs halfLifeMs))
                  touchpoints;
            totalWeight = foldl (\<lambda>sum w. js_add sum w) (Num 0) rawWeights
        in map (\<lambda>w. js_div w totalWeight) rawWeights)"

text \<open>\<open>config.timeDecayHalfLife || 7\<close>: an absent or zero half-life is seven days.\<close>

definition halfLifeOrDefault :: "AttributionConfig \<Rightarrow> real" where
  "halfLifeOrDefault config =
     (case timeDecayHalfLife config of None \<Rightarrow> 7 | Some h \<Rightarrow> if h = 0 then 7 else h)"

definition calculateWeights :: "int \<Rightarrow> UTMRecord list \<Rightarrow> AttributionConfig \<Rightarrow> jsnum list" where
  "calculateWeights nowMs touchpoints config =
     (let n = length touchpoints in
      case model config of
        First_touch \<Rightarrow> firstTouchWeights n
      | Last_touch \<Rightarrow> lastTouchWeights n
      | Linear \<Rightarrow> linearWeights n
      | Time_decay \<Rightarrow> timeDecayWeights nowMs touchpoints (halfLifeOrDefault config))"

text \<open>
  The loop of \<open>createAttribution\<close> over the touchpoints and their weights (the two
  lists have the same length, lemma \<open>length_calculateWeights\<close>); \<open>events\<close> is the
  list built so far, so its length counts the calls of \<open>randomUUID\<close>.
\<close>

fun attributionLoop ::
  "runtime \<Rightarrow> string \<Rightarrow> string option \<Rightarrow> jsnum \<Rightarrow> AttributionConfig \<Rightarrow>
   (UTMRecord \<times> jsnum) list \<Rightarrow> AttributionEvent list \<times> DataStore \<Rightarrow>
   AttributionEvent list \<times> DataStore" where
  "attributionLoop rt contactId dealId revenue config [] (events, st) = (events, st)"
| "attributionLoop rt contactId dealId revenue config ((touchpoint, weight) # rest) (events, st) =
     (if js_gt0 weight then
        let event = \<lparr>ev_id = uuid rt (length events),
                     ev_contactId = contactId,
                     ev_dealId = dealId,
                     utmRecordId = tp_id touchpoint,
                     ev_channel = tp_channel touchpoint,
                     ev_source = tp_source touchpoint,
                     ev_sourceDetail = tp_sourceDetail touchpoint,
                     attributionModel = model config,
                     attributionWeight = weight,
                     ev_revenue = revenue,
                     ev_timestamp = stamp rt (length events)\<rparr>
        in attributionLoop rt contactId dealId revenue config rest
             (events @ [event], addAttributionEvent event st)
      else attributionLoop rt contactId dealId revenue config rest (events, st))"

definition createAttribution ::
  "runtime \<Rightarrow> DataStore \<Rightarrow> string \<Rightarrow> string option \<Rightarrow> jsnum \<Rightarrow> AttributionConfig \<Rightarrow>
   AttributionEvent list \<times> DataStore" where
  "createAttribution rt st contactId dealId revenue config =
     (let touchpoints = getUTMRecordsByContact st contactId in
      if length touchpoints = 0 then ([], st)
      else
        let weights = calculateWeights (now rt) touchpoints config
        in attributionLoop rt contactId dealId revenue config (zip touchpoints weights) ([], st))"

text \<open>\<open>existingEvents.find(e => e.dealId)?.dealId\<close>\<close>

definition findDealId :: "AttributionEvent list \<Rightarrow> string option" where
  "findDealId events =
     (case find (\<lambda>e. truthy (ev_dealId e)) events of None \<Rightarrow> None | Some e \<Rightarrow> ev_dealId e)"

definition recalculateRevenue :: "AttributionEvent list \<Rightarrow> jsnum" where
  "recalculateRevenue existingEvents =
     js_div (foldl (\<lambda>sum e. js_add sum (ev_revenue e)) (Num 0) existingEvents)
            (foldl (\<lambda>sum e. js_add sum (attributionWeight e)) (Num 0) existingEvents)"

definition recalculateAttribution ::
  "runtime \<Rightarrow> DataStore \<Rightarrow> string \<Rightarrow> AttributionConfig \<Rightarrow> AttributionEvent list \<times> DataStore" where
  "recalculateAttribution rt st contactId newConfig =
     (let existingEvents = getAttributionEventsByContact st contactId in
      if length existingEvents = 0 then ([], st)
      else
        let totalRevenue = recalculateRevenue existingEvents;
            dealId = findDealId existingEvents
        in createAttribution rt st contactId dealId totalRevenue newConfig)"

section \<open>Normalization (\<open>services/normalization.ts\<close>)\<close>

text \<open>
  The regular-expression engine is a parameter: \<open>regexTest pattern value\<close> says
  whether \<open>new RegExp(pattern, 'i')\<close> compiles and tests true on \<open>value\<close>; it is
  false where the constructor throws, as the \<open>catch\<close> returns.
\<close>

definition matchesRule :: "(string \<Rightarrow> string \<Rightarrow> bool) \<Rightarrow> string \<Rightarrow> NormalizationRule \<Rightarrow> bool" where
  "matchesRule regexTest v rule =
     (let lowerValue = toLowerCase v;
          lowerMatch = toLowerCase (matchValue rule)
      in case matchType rule of
           Exact \<Rightarrow> lowerValue = lowerMatch
         | Contains \<Rightarrow> str_includes lowerValue lowerMatch
         | StartsWith \<Rightarrow> startsWith lowerValue lowerMatch
         | EndsWith \<Rightarrow> endsWith lowerValue lowerMatch
         | Regex \<Rightarrow> regexTest (matchValue rule) v)"

text \<open>The loop of \<open>normalize\<close> over the rules, on the copy \<open>normalized\<close> of the input.\<close>

fun normalizeLoop ::
  "(string \<Rightarrow> string \<Rightarrow> bool) \<Rightarrow> NormalizationRule list \<Rightarrow> UTMParams \<Rightarrow> UTMParams" where
  "normalizeLoop regexTest [] normalized = normalized"
| "normalizeLoop regexTest (rule # rules) normalized =
     normalizeLoop regexTest rules
       (case normalized (nr_field rule) of
          None \<Rightarrow> normalized
        | Some v \<Rightarrow>
            if v \<noteq> [] \<and> matchesRule regexTest v rule
            then normalized(nr_field rule \<mapsto> normalizedValue rule)
            else normalized)"

text \<open>\<open>.replace(/\s+/g, '_')\<close>: every maximal run of whitespace becomes one underscore.\<close>

fun replaceSpaces :: "bool \<Rightarrow> string \<Rightarrow> string" where
  "replaceSpaces inRun [] = []"
| "replaceSpaces inRun (c # cs) =
     (if is_space c then (if inRun then replaceSpaces True cs else CHR ''_'' # replaceSpaces True cs)
      else c # replaceSpaces False cs)"

text \<open>The class \<open>[a-z0-9_-]\<close>.\<close>

definition allowedChar :: "char \<Rightarrow> bool" where
  "allowedChar c =
     (let n = (of_char c :: nat)
      in (97 \<le> n \<and> n \<le> 122) \<or> (48 \<le> n \<and> n \<le> 57) \<or> n = 95 \<or> n = 45)"

definition cleanValue :: "string \<Rightarrow> string" where
  "cleanValue v = filter allowedChar (replaceSpaces False (trim (toLowerCase v)))"

definition cleanupParams :: "UTMParams \<Rightarrow> UTMParams" where
  "cleanupParams params =
     (\<lambda>key. case params key of
               None \<Rightarrow> None
             | Some v \<Rightarrow> if v \<noteq> [] then Some (cleanValue v) else None)"

text \<open>\<open>normalize\<close>; the name carries a suffix because HOL has a constant \<open>normalize\<close>.\<close>

definition normalize_params :: "(string \<Rightarrow> string \<Rightarrow> bool) \<Rightarrow> DataStore \<Rightarrow> UTMParams \<Rightarrow> UTMParams" where
  "normalize_params regexTest st params =
     cleanupParams (normalizeLoop regexTest (getAllNormalizationRules st) params)"

text \<open>
  The rule chain in the words of the specification: one step tries one rule on the
  current value of its target field and overwrites the field on a match; the chain is
  the fold of the steps over the rule list, with no exit after a match.
\<close>

definition rule_step :: "(string \<Rightarrow> string \<Rightarrow> bool) \<Rightarrow> NormalizationRule \<Rightarrow> UTMParams \<Rightarrow> UTMParams" where
  "rule_step regexTest rule p =
     (if truthy (p (nr_field rule)) \<and> matchesRule regexTest (the (p (nr_field rule))) rule
      then p(nr_field rule \<mapsto> normalizedValue rule) else p)"

definition rule_chain :: "(string \<Rightarrow> string \<Rightarrow> bool) \<Rightarrow> NormalizationRule list \<Rightarrow> UTMParams \<Rightarrow> UTMParams" where
  "rule_chain regexTest rules p = fold (rule_step regexTest) rules p"

text \<open>
  The cleaning in the words of the specification. The pieces of a string are what lies
  between its whitespace characters; its words are the pieces that are not empty.
  Trimming a value and collapsing each run of whitespace inside it to one underscore
  leaves its words with one underscore between two of them. The value is lowercased
  before, and afterwards every character outside \<open>[a-z0-9_-]\<close>, written out as a
  list, is removed.
\<close>

fun pieces :: "string \<Rightarrow> string list" where
  "pieces [] = [[]]"
| "pieces (c # cs) =
     (if is_space c then [] # pieces cs
      else (case pieces cs of [] \<Rightarrow> [[c]] | w # ws \<Rightarrow> (c # w) # ws))"

definition spec_words :: "string \<Rightarrow> string list" where
  "spec_words s = filter (\<lambda>w. w \<noteq> []) (pieces s)"

fun join_underscore :: "string list \<Rightarrow> string" where
  "join_underscore [] = []"
| "join_underscore (w # ws) = w @ concat (map (\<lambda>x. CHR ''_'' # x) ws)"

definition spec_charset :: "char list" where
  "spec_charset = ''abcdefghijklmnopqrstuvwxyz0123456789_-''"

definition clean_spec :: "string \<Rightarrow> string" where
  "clean_spec v =
     filter (\<lambda>c. c \<in> set spec_charset) (join_underscore (spec_words (toLowerCase v)))"

section \<open>Source mapping (\<open>services/sourceMapping.ts\<close>)\<close>

record SourceMappingResult =
  res_source :: string
  res_sourceDetail :: string
  res_channel :: string
  matchedMapping :: "SourceMapping option"

text \<open>
  The pattern that \<open>matchesPattern\<close> compiles: the first \<open>replace\<close> escapes every
  metacharacter but the star and the second turns each star into \<open>.*\<close>, so the
  expression is a sequence of literal characters and \<open>.*\<close> tokens between \<open>^\<close> and
  \<open>$\<close>. Without the \<open>s\<close> flag the dot does not match a line terminator.
\<close>

datatype wild_token = Lit char | AnyRun

definition wildcardRegex :: "string \<Rightarrow> wild_token list" where
  "wildcardRegex pattern = map (\<lambda>c. if c = CHR ''*'' then AnyRun else Lit c) pattern"

definition is_line_terminator :: "char \<Rightarrow> bool" where
  "is_line_terminator c = (let n = (of_char c :: nat) in n = 10 \<or> n = 13)"

fun regexMatch :: "wild_token list \<Rightarrow> string \<Rightarrow> bool" where
  "regexMatch [] s = (s = [])"
| "regexMatch (Lit c # ts) [] = False"
| "regexMatch (Lit c # ts) (d # ds) = (c = d \<and> regexMatch ts ds)"
| "regexMatch (AnyRun # ts) [] = regexMatch ts []"
| "regexMatch (AnyRun # ts) (d # ds) =
     (regexMatch ts (d # ds) \<or> (\<not> is_line_terminator d \<and> regexMatch (AnyRun # ts) ds))"

definition matchesPattern :: "string \<Rightarrow> string \<Rightarrow> bool" where
  "matchesPattern v pattern =
     (let lowerPattern = toLowerCase pattern
      in if CHR ''*'' \<in> set lowerPattern then regexMatch (wildcardRegex lowerPattern) v
         else v = lowerPattern)"

text \<open>
  What an anchored expression of literals and \<open>.*\<close> tokens denotes: a literal stands
  for itself and \<open>.*\<close> for any run of characters that are not line terminators.
\<close>

inductive wild_matches :: "wild_token list \<Rightarrow> string \<Rightarrow> bool" where
  wild_end: "wild_matches [] []"
| wild_lit: "wild_matches ts w \<Longrightarrow> wild_matches (Lit c # ts) (c # w)"
| wild_run: "wild_matches ts w \<Longrightarrow> \<forall>c\<in>set u. \<not> is_line_terminator c \<Longrightarrow>
             wild_matches (AnyRun # ts) (u @ w)"

definition resultOf :: "SourceMapping \<Rightarrow> SourceMappingResult" where
  "resultOf mapping =
     \<lparr>res_source = sm_source mapping,
      res_sourceDetail = sm_sourceDetail mapping,
      res_channel = sm_channel mapping,
      matchedMapping = Some mapping\<rparr>"

text \<open>The loop of \<open>mapToSource\<close>; \<open>None\<close> when it ends without a \<open>return\<close>.\<close>

fun mapToSourceLoop :: "string \<Rightarrow> string \<Rightarrow> SourceMapping list \<Rightarrow> SourceMappingResult option" where
  "mapToSourceLoop src med [] = None"
| "mapToSourceLoop src med (mapping # mappings) =
     (if matchesPattern src (utmSource mapping) then
        (case utmMedium mapping of
           None \<Rightarrow> Some (resultOf mapping)
         | Some m \<Rightarrow>
             if m \<noteq> [] then
               (if matchesPattern med m then Some (resultOf mapping)
                else mapToSourceLoop src med mappings)
             else Some (resultOf mapping))
      else mapToSourceLoop src med mappings)"

text \<open>\<open>x?.toLowerCase() || d\<close>\<close>

definition lowerOr :: "string option \<Rightarrow> string \<Rightarrow> string" where
  "lowerOr x d = (case x of None \<Rightarrow> d | Some s \<Rightarrow> if toLowerCase s = [] then d else toLowerCase s)"

text \<open>\<open>name.split(/[_-]/)\<close>\<close>

fun splitName :: "string \<Rightarrow> string list" where
  "splitName [] = [[]]"
| "splitName (c # cs) =
     (if c = CHR ''_'' \<or> c = CHR ''-'' then [] # splitName cs
      else (case splitName cs of [] \<Rightarrow> [[c]] | w # ws \<Rightarrow> (c # w) # ws))"

fun capitalize :: "string \<Rightarrow> string" where
  "capitalize [] = []"
| "capitalize (c # cs) = toUpperCase [c] @ cs"

fun joinSpace :: "string list \<Rightarrow> string" where
  "joinSpace [] = []"
| "joinSpace [w] = w"
| "joinSpace (w # ws) = w @ CHR '' '' # joinSpace ws"

definition formatSourceName :: "string \<Rightarrow> string" where
  "formatSourceName name = joinSpace (map capitalize (splitName name))"

definition getDefaultMapping :: "UTMParams \<Rightarrow> SourceMappingResult" where
  "getDefaultMapping params =
     (let src = lowerOr (params Utm_source) ''unknown'';
          med = lowerOr (params Utm_medium) [];
          channel =
            (if str_includes med ''organic'' then
               (if str_includes src ''google'' \<or> str_includes src ''bing''
                then ''Organic Search'' else ''Organic Social'')
             else if str_includes med ''paid'' \<or> str_includes med ''cpc'' \<or> str_includes med ''ppc'' then
               (if str_includes src ''google'' \<or> str_includes src ''bing''
                then ''Paid Search'' else ''Paid Social'')
             else if str_includes med ''email'' \<or> str_includes src ''email'' then ''Email''
             else if str_includes med ''social''
                     \<or> src \<in> set [''facebook'', ''twitter'', ''linkedin'', ''instagram''] then ''Social''
             else if src = ''direct''
                     \<or> (\<not> truthy (params Utm_source) \<and> \<not> truthy (params Utm_medium)) then ''Direct''
             else if str_includes med ''referral'' then ''Referral''
             else ''Other'')
      in \<lparr>res_source = formatSourceName src,
          res_sourceDetail = (if med \<noteq> [] then formatSourceName med else ''Unknown''),
          res_channel = channel,
          matchedMapping = None\<rparr>)"

definition mapToSource :: "DataStore \<Rightarrow> UTMParams \<Rightarrow> SourceMappingResult" where
  "mapToSource st params =
     (let mappings = getAllSourceMappings st;
          src = lowerOr (params Utm_source) [];
          med = lowerOr (params Utm_medium) []
      in case mapToSourceLoop src med mappings of
           Some r \<Rightarrow> r
         | None \<Rightarrow> getDefaultMapping params)"

text \<open>
  The selection in the words of the specification: a mapping is satisfied when its
  source pattern matches and, if it specifies a medium, its medium pattern matches too.
\<close>

definition satisfies :: "string \<Rightarrow> string \<Rightarrow> SourceMapping \<Rightarrow> bool" where
  "satisfies src med mapping =
     (matchesPattern src (utmSource mapping) \<and>
      (truthy (utmMedium mapping) \<longrightarrow> matchesPattern med (the (utmMedium mapping))))"

section \<open>Metrics (\<open>MetricsService\<close>)\<close>

record MetricsCalculationOptions =
  startDate :: string
  endDate :: string
  opt_channel :: "string option"
  opt_source :: "string option"
  opt_sourceDetail :: "string option"

definition getTotalCosts :: "DataStore \<Rightarrow> MetricsCalculationOptions \<Rightarrow> jsnum" where
  "getTotalCosts st options =
     (let costs = getChannelCostsInRange st (startDate options) (endDate options)
      in foldl (\<lambda>sum c. js_add sum (Num (cost c))) (Num 0)
           (filter (\<lambda>c.
              \<not> (truthy (opt_channel options) \<and> Some (cc_channel c) \<noteq> opt_channel options) \<and>
              \<not> (truthy (opt_source options) \<and> cc_source c \<noteq> opt_source options) \<and>
              \<not> (truthy (opt_sourceDetail options) \<and> cc_sourceDetail c \<noteq> opt_sourceDetail options))
            costs))"

text \<open>
  \<open>parseDate s\<close> is the time value of \<open>new Date(s)\<close>, \<open>None\<close> for an invalid date; a
  comparison with an invalid date is false.
\<close>

definition date_less :: "int option \<Rightarrow> int option \<Rightarrow> bool" where
  "date_less a b = (case (a, b) of (Some x, Some y) \<Rightarrow> x < y | _ \<Rightarrow> False)"

definition getAttributionEvents ::
  "(string \<Rightarrow> int option) \<Rightarrow> DataStore \<Rightarrow> MetricsCalculationOptions \<Rightarrow> AttributionEvent list" where
  "getAttributionEvents parseDate st options =
     filter (\<lambda>e.
        \<not> (date_less (Some (ev_timestamp e)) (parseDate (startDate options))
           \<or> date_less (parseDate (endDate options)) (Some (ev_timestamp e))) \<and>
        \<not> (truthy (opt_channel options) \<and> Some (ev_channel e) \<noteq> opt_channel options) \<and>
        \<not> (truthy (opt_source options) \<and> Some (ev_source e) \<noteq> opt_source options) \<and>
        \<not> (truthy (opt_sourceDetail options) \<and> Some (ev_sourceDetail e) \<noteq> opt_sourceDetail options))
      (getAllAttributionEvents st)"

definition weightedRevenue :: "AttributionEvent list \<Rightarrow> jsnum" where
  "weightedRevenue events =
     foldl (\<lambda>sum e. js_add sum (js_mul (ev_revenue e) (attributionWeight e))) (Num 0) events"

definition totalWeightOf :: "AttributionEvent list \<Rightarrow> jsnum" where
  "totalWeightOf events = foldl (\<lambda>sum e. js_add sum (attributionWeight e)) (Num 0) events"

definition getTotalRevenue ::
  "(string \<Rightarrow> int option) \<Rightarrow> DataStore \<Rightarrow> MetricsCalculationOptions \<Rightarrow> jsnum" where
  "getTotalRevenue parseDate st options = weightedRevenue (getAttributionEvents parseDate st options)"

definition getConversions ::
  "(string \<Rightarrow> int option) \<Rightarrow> DataStore \<Rightarrow> MetricsCalculationOptions \<Rightarrow> jsnum" where
  "getConversions parseDate st options = totalWeightOf (getAttributionEvents parseDate st options)"

definition calculateCAC ::
  "(string \<Rightarrow> int option) \<Rightarrow> DataStore \<Rightarrow> MetricsCalculationOptions \<Rightarrow> jsnum" where
  "calculateCAC parseDate st options =
     (let costs = getTotalCosts st options;
          conversions = getConversions parseDate st options
      in if conversions = Num 0 then Num 0 else js_div costs conversions)"

definition calculateROI ::
  "(string \<Rightarrow> int option) \<Rightarrow> DataStore \<Rightarrow> MetricsCalculationOptions \<Rightarrow> jsnum" where
  "calculateROI parseDate st options =
     (let costs = getTotalCosts st options;
          revenue = getTotalRevenue parseDate st options
      in if costs = Num 0 then Num 0
         else js_mul (js_div (js_sub revenue costs) costs) (Num 100))"

definition calculateROAS ::
  "(string \<Rightarrow> int option) \<Rightarrow> DataStore \<Rightarrow> MetricsCalculationOptions \<Rightarrow> jsnum" where
  "calculateROAS parseDate st options =
     (let costs = getTotalCosts st options;
          revenue = getTotalRevenue parseDate st options
      in if costs = Num 0 then Num 0 else js_div revenue costs)"

record ContactTouchpoint =
  ct_channel :: string
  ct_source :: string
  ct_sourceDetail :: string
  ct_timestamp :: int
  utmCampaign :: "string option"

record ContactMetrics =
  touchpoints :: "ContactTouchpoint list"
  attributedRevenue :: jsnum
  attributedCAC :: jsnum

text \<open>\<open>[...new Set(xs)]\<close>: the distinct elements in the order of their first occurrence.\<close>

definition uniqueOf :: "'a list \<Rightarrow> 'a list" where
  "uniqueOf xs = rev (remdups (rev xs))"

text \<open>The loop of \<open>getContactMetrics\<close> over the channels, on \<open>totalAttributedCost\<close>.\<close>

fun attributedCostLoop :: "DataStore \<Rightarrow> AttributionEvent list \<Rightarrow> string list \<Rightarrow> jsnum \<Rightarrow> jsnum" where
  "attributedCostLoop st contactEvents [] totalAttributedCost = totalAttributedCost"
| "attributedCostLoop st contactEvents (channel # channels) totalAttributedCost =
     (let channelCosts = getChannelCostsByChannel st channel;
          channelEvents = getAttributionEventsByChannel st channel
      in if 0 < length channelEvents then
           let contactWeight =
                 foldl (\<lambda>sum e. js_add sum (attributionWeight e)) (Num 0)
                   (filter (\<lambda>e. ev_channel e = channel) contactEvents);
               totalWeight = foldl (\<lambda>sum e. js_add sum (attributionWeight e)) (Num 0) channelEvents;
               channelTotalCost = foldl (\<lambda>sum c. js_add sum (Num (cost c))) (Num 0) channelCosts
           in attributedCostLoop st contactEvents channels
                (js_add totalAttributedCost
                   (js_div (js_mul channelTotalCost contactWeight) totalWeight))
         else attributedCostLoop st contactEvents channels totalAttributedCost)"

definition getContactMetrics :: "DataStore \<Rightarrow> string \<Rightarrow> ContactMetrics" where
  "getContactMetrics st contactId =
     (let utmRecs = getUTMRecordsByContact st contactId;
          contactEvents = getAttributionEventsByContact st contactId;
          uniqueChannels = uniqueOf (map ev_channel contactEvents)
      in \<lparr>touchpoints =
            map (\<lambda>r. \<lparr>ct_channel = tp_channel r,
                      ct_source = tp_source r,
                      ct_sourceDetail = tp_sourceDetail r,
                      ct_timestamp = tp_timestamp r,
                      utmCampaign = normalizedParams r Utm_campaign\<rparr>) utmRecs,
          attributedRevenue = weightedRevenue contactEvents,
          attributedCAC = attributedCostLoop st contactEvents uniqueChannels (Num 0)\<rparr>)"

section \<open>Example data\<close>

text \<open>
  The two touchpoints of \<open>tests/attribution.test.ts\<close>, of 1 January and 15 January
  2024, stored with the later one first, and a third one for another contact.
\<close>

definition example_touchpoint :: "string \<Rightarrow> string \<Rightarrow> string \<Rightarrow> int \<Rightarrow> UTMRecord" where
  "example_touchpoint i c ch t =
     \<lparr>tp_id = i, tp_contactId = Some c, tp_dealId = None,
      originalParams = Map.empty, normalizedParams = Map.empty,
      tp_source = ch, tp_sourceDetail = ch, tp_channel = ch,
      tp_timestamp = t, tp_revenue = 0\<rparr>"

definition utm_1 :: UTMRecord where
  "utm_1 = example_touchpoint ''utm-1'' ''contact-1'' ''Paid Search'' 1704067200000"

definition utm_2 :: UTMRecord where
  "utm_2 = example_touchpoint ''utm-2'' ''contact-1'' ''Paid Social'' 1705276800000"

definition utm_3 :: UTMRecord where
  "utm_3 = example_touchpoint ''utm-3'' ''contact-2'' ''Email'' 1704500000000"

definition empty_store :: DataStore where
  "empty_store =
     \<lparr>normalizationRules = [], sourceMappings = [], channelCosts = [],
      utmRecords = [], attributionEvents = []\<rparr>"

definition touch_store :: DataStore where
  "touch_store = empty_store\<lparr>utmRecords := [utm_2, utm_3, utm_1]\<rparr>"

text \<open>A clock that stands at 8 January 2024 and identifiers \<open>e\<close>, \<open>ee\<close>, \<open>eee\<close>, ...\<close>

definition example_runtime :: runtime where
  "example_runtime =
     \<lparr>now = 1704672000000, uuid = (\<lambda>k. replicate (Suc k) CHR ''e''), stamp = (\<lambda>k. 1704672000000)\<rparr>"

definition later_runtime :: runtime where
  "later_runtime =
     \<lparr>now = 1704672000000, uuid = (\<lambda>k. replicate (Suc k) CHR ''f''), stamp = (\<lambda>k. 1704672000000)\<rparr>"

definition config_of :: "AttributionModel \<Rightarrow> AttributionConfig" where
  "config_of m = \<lparr>model = m, timeDecayHalfLife = None\<rparr>"

text \<open>A configuration whose half-life is negative; the request schema accepts any number.\<close>

definition negative_half_life :: AttributionConfig where
  "negative_half_life = \<lparr>model = Time_decay, timeDecayHalfLife = Some (- 7)\<rparr>"

text \<open>
  A touchpoint of 1 January 2000, alone in its store: at the clock of \<open>example_runtime\<close>
  it is 8773 days old, more than 1253 half-lives of seven days.
\<close>

definition utm_2000 :: UTMRecord where
  "utm_2000 = example_touchpoint ''utm-2000'' ''contact-1'' ''Email'' 946684800000"

definition old_store :: DataStore where
  "old_store = empty_store\<lparr>utmRecords := [utm_2000]\<rparr>"

text \<open>
  Two touchpoints of 1 January and 1 June 2020, 1468 and 1316 days before the clock of
  \<open>example_runtime\<close>, and a configuration with a half-life of one day.
\<close>

definition utm_2020a :: UTMRecord where
  "utm_2020a = example_touchpoint ''utm-2020a'' ''contact-1'' ''Email'' 1577836800000"

definition utm_2020b :: UTMRecord where
  "utm_2020b = example_touchpoint ''utm-2020b'' ''contact-1'' ''Email'' 1590969600000"

definition one_day_half_life :: AttributionConfig where
  "one_day_half_life = \<lparr>model = Time_decay, timeDecayHalfLife = Some 1\<rparr>"

text \<open>The store after a linear attribution of a revenue of 1000 to \<open>contact-1\<close>.\<close>

definition linear_store :: DataStore where
  "linear_store =
     snd (createAttribution example_runtime touch_store ''contact-1'' None (Num 1000) (config_of Linear))"

text \<open>
  The implied original revenue in the words of the specification:
  \<open>sum(revenue*weight) / sum(weight)\<close>.
\<close>

definition implied_revenue_spec :: "AttributionEvent list \<Rightarrow> jsnum" where
  "implied_revenue_spec events = js_div (weightedRevenue events) (totalWeightOf events)"

text \<open>A regular-expression engine that matches nothing, for stores without \<open>regex\<close> rules.\<close>

definition no_regex :: "string \<Rightarrow> string \<Rightarrow> bool" where
  "no_regex pattern v = False"

definition exact_rule :: "string \<Rightarrow> utm_field \<Rightarrow> string \<Rightarrow> string \<Rightarrow> NormalizationRule" where
  "exact_rule i f mv nv =
     \<lparr>nr_id = i, nr_field = f, matchType = Exact, matchValue = mv, normalizedValue = nv,
      nr_priority = 10, nr_isActive = True\<rparr>"

definition seed_mapping ::
  "string \<Rightarrow> string \<Rightarrow> string option \<Rightarrow> string \<Rightarrow> string \<Rightarrow> string \<Rightarrow> real \<Rightarrow> SourceMapping" where
  "seed_mapping i us um s sd ch p =
     \<lparr>sm_id = i, utmSource = us, utmMedium = um, sm_source = s, sm_sourceDetail = sd,
      sm_channel = ch, sm_priority = p, sm_isActive = True\<rparr>"

text \<open>The store after \<open>seedDefaults()\<close>.\<close>

definition seed_store :: DataStore where
  "seed_store = empty_store
     \<lparr>normalizationRules :=
        [exact_rule ''norm-1'' Utm_source ''fb'' ''facebook'',
         exact_rule ''norm-2'' Utm_source ''ig'' ''instagram'',
         exact_rule ''norm-3'' Utm_source ''tw'' ''twitter'',
         exact_rule ''norm-4'' Utm_source ''li'' ''linkedin'',
         exact_rule ''norm-5'' Utm_medium ''cpc'' ''paid'',
         exact_rule ''norm-6'' Utm_medium ''ppc'' ''paid''],
      sourceMappings :=
        [seed_mapping ''map-1'' ''google'' (Some ''cpc'') ''Google Ads'' ''Search'' ''Paid Search'' 10,
         seed_mapping ''map-2'' ''google'' (Some ''organic'') ''Google'' ''Organic Search'' ''Organic Search'' 10,
         seed_mapping ''map-3'' ''facebook'' (Some ''paid'') ''Facebook'' ''Paid Social'' ''Paid Social'' 10,
         seed_mapping ''map-4'' ''facebook'' (Some ''organic'') ''Facebook'' ''Organic Social'' ''Organic Social'' 10,
         seed_mapping ''map-5'' ''linkedin'' (Some ''paid'') ''LinkedIn'' ''Paid Social'' ''Paid Social'' 10,
         seed_mapping ''map-6'' ''email'' None ''Email'' ''Newsletter'' ''Email'' 5,
         seed_mapping ''map-7'' ''direct'' None ''Direct'' ''Direct Traffic'' ''Direct'' 1]\<rparr>"




text \<open>The seeded mappings below one wildcard mapping of priority 20 for any Facebook host.\<close>

definition wildcard_store :: DataStore where
  "wildcard_store = seed_store
     \<lparr>sourceMappings := sourceMappings seed_store @
        [seed_mapping ''map-8'' ''*.Facebook.com'' None ''Facebook'' ''Web'' ''Social'' 20]\<rparr>"

text \<open>
  A store with a cost of 1000 for \<open>Paid Search\<close> and one attribution event of
  \<open>contact-1\<close> in that channel whose weight is 0, the least weight that
  \<open>AttributionEventSchema\<close> admits.
\<close>

definition zero_weight_event :: AttributionEvent where
  "zero_weight_event =
     \<lparr>ev_id = ''event-1'', ev_contactId = ''contact-1'', ev_dealId = None,
      utmRecordId = ''utm-1'', ev_channel = ''Paid Search'', ev_source = ''Google Ads'',
      ev_sourceDetail = ''Search'', attributionModel = Last_touch, attributionWeight = Num 0,
      ev_revenue = Num 500, ev_timestamp = 1705276800000\<rparr>"

definition paid_search_cost :: ChannelCost where
  "paid_search_cost =
     \<lparr>cc_id = ''cost-1'', cc_channel = ''Paid Search'', cc_source = None, cc_sourceDetail = None,
      cost = 1000, period = Monthly, cc_startDate = ''2024-01-01'', cc_endDate = ''2024-01-31'',
      currency = ''USD''\<rparr>"

definition zero_weight_store :: DataStore where
  "zero_weight_store =
     empty_store\<lparr>channelCosts := [paid_search_cost], attributionEvents := [zero_weight_event]\<rparr>"

section \<open>Properties of the store\<close>

lemma js_insert_key:
  assumes "\<And>x y. (cmp x y \<le> 0) = (k x \<le> k y)"
  shows "js_insert cmp x ys = insort_key k x ys"
  by (induction ys) (simp_all add: assms)

lemma js_sort_key:
  assumes "\<And>x y. (cmp x y \<le> 0) = (k x \<le> k y)"
  shows "js_sort cmp xs = sort_key k xs"
  unfolding js_sort_def by (induction xs) (simp_all add: js_insert_key [OF assms])

lemma getUTMRecordsByContact_sort_key:
  "getUTMRecordsByContact st c =
     sort_key tp_timestamp (filter (\<lambda>r. tp_contactId r = Some c) (utmRecords st))"
  unfolding getUTMRecordsByContact_def by (rule js_sort_key) simp


lemma getAllSourceMappings_sort_key:
  "getAllSourceMappings st =
     sort_key (\<lambda>m. - sm_priority m) (filter sm_isActive (sourceMappings st))"
  unfolding getAllSourceMappings_def by (rule js_sort_key) simp

section \<open>The range of doubles\<close>

lemma dbl_min_pos: "0 < dbl_min" by (simp add: dbl_min_def)

lemma dbl_min_less_max: "dbl_min < dbl_max"
proof -
  have "dbl_min \<le> 1" by (simp add: dbl_min_def)
  moreover have "(1::real) < dbl_max" unfolding dbl_max_def by (rule one_less_power) simp_all
  ultimately show ?thesis by simp
qed

lemma dbl_max_gt_one: "1 < dbl_max"
  unfolding dbl_max_def by (rule one_less_power) simp_all

lemma dbl_zero [simp]: "dbl 0 = Num 0"
  using dbl_min_pos dbl_max_gt_one by (simp add: dbl_def)

lemma dbl_in_range: "dbl_min < \<bar>r\<bar> \<Longrightarrow> \<bar>r\<bar> < dbl_max \<Longrightarrow> dbl r = Num r"
  by (auto simp: dbl_def)

lemma dbl_moderate: "1 / 10 ^ 9 \<le> \<bar>r\<bar> \<Longrightarrow> \<bar>r\<bar> \<le> 10 ^ 15 \<Longrightarrow> dbl r = Num r"
proof (rule dbl_in_range)
  assume a: "1 / 10 ^ 9 \<le> \<bar>r\<bar>" and b: "\<bar>r\<bar> \<le> 10 ^ 15"
  have "(10::real) ^ 9 < 2 ^ 1075"
  proof -
    have "(10::real) ^ 9 < 2 ^ 30" by simp
    also have "(2::real) ^ 30 \<le> 2 ^ 1075" by (rule power_increasing) simp_all
    finally show ?thesis .
  qed
  then have "dbl_min < 1 / 10 ^ 9"
    unfolding dbl_min_def by (simp add: frac_less2 del: power_numeral)
  with a show "dbl_min < \<bar>r\<bar>" by simp
  have "(10::real) ^ 15 < 2 ^ 50" by simp
  also have "(2::real) ^ 50 \<le> 2 ^ 1024" by (rule power_increasing) simp_all
  finally have "(10::real) ^ 15 < dbl_max" by (simp add: dbl_max_def)
  with b show "\<bar>r\<bar> < dbl_max" by simp
qed

lemma dbl_unit:
  assumes "0 \<le> r" and "r \<le> 1"
  shows "\<exists>x. dbl r = Num x \<and> 0 \<le> x \<and> x \<le> 1"
  using assms dbl_max_gt_one by (auto simp: dbl_def)

lemma nonneg_dbl_dbl: "0 \<le> r \<Longrightarrow> nonneg_dbl (dbl r)"
  using dbl_min_pos by (auto simp: nonneg_dbl_def dbl_def)

lemma pow_half_cases: "js_pow_half e = NaN \<or> nonneg_dbl (js_pow_half e)"
proof (cases e)
  case (Num x)
  have "nonneg_dbl (dbl ((1 / 2) powr x))" by (rule nonneg_dbl_dbl) simp
  then show ?thesis by (simp add: Num)
qed (simp_all add: nonneg_dbl_def)

lemma js_add_nonneg:
  assumes "nonneg_dbl a" and "nonneg_dbl b"
  shows "nonneg_dbl (js_add a b) \<and>
         (\<forall>t. js_add a b = Num t \<longrightarrow> (\<exists>x y. a = Num x \<and> b = Num y \<and> x \<le> t \<and> y \<le> t))"
proof -
  from assms consider "a = PosInf" | "b = PosInf"
    | x y where "a = Num x" "b = Num y" "x = 0 \<or> dbl_min < x" "y = 0 \<or> dbl_min < y"
    by (auto simp: nonneg_dbl_def)
  then show ?thesis
  proof cases
    case 1
    then show ?thesis using assms(2) by (cases b) (auto simp: nonneg_dbl_def)
  next
    case 2
    then show ?thesis using assms(1) by (cases a) (auto simp: nonneg_dbl_def)
  next
    case 3
    have nn: "0 \<le> x" "0 \<le> y" using 3(3,4) dbl_min_pos by auto
    show ?thesis
    proof (cases "x = 0 \<and> y = 0")
      case True
      then show ?thesis by (simp add: 3 nonneg_dbl_def)
    next
      case False
      then have "dbl_min < x + y" using 3(3,4) nn by auto
      then show ?thesis
        using nn dbl_min_pos by (auto simp: 3 dbl_def nonneg_dbl_def)
    qed
  qed
qed

lemma foldl_js_add_NaN: "foldl js_add NaN vs = NaN"
  by (induction vs) simp_all

lemma js_add_NaN_right [simp]: "js_add a NaN = NaN"
  by (cases a) simp_all

lemma foldl_js_add_mem_NaN: "NaN \<in> set vs \<Longrightarrow> foldl js_add a vs = NaN"
  by (induction vs arbitrary: a) (auto simp: foldl_js_add_NaN)

lemma foldl_js_add_nonneg:
  assumes "nonneg_dbl a" and "\<forall>v\<in>set vs. nonneg_dbl v"
  shows "nonneg_dbl (foldl js_add a vs) \<and>
         (\<forall>t. foldl js_add a vs = Num t \<longrightarrow>
            (\<exists>x. a = Num x \<and> x \<le> t) \<and> (\<forall>v\<in>set vs. \<exists>y. v = Num y \<and> y \<le> t))"
  using assms
proof (induction vs arbitrary: a)
  case Nil
  then show ?case by (auto simp: nonneg_dbl_def)
next
  case (Cons v vs)
  from Cons.prems have v: "nonneg_dbl v" and vs: "\<forall>v\<in>set vs. nonneg_dbl v" by auto
  note step = js_add_nonneg [OF Cons.prems(1) v]
  note ih = Cons.IH [OF conjunct1 [OF step] vs]
  show ?case
  proof (intro conjI allI impI)
    show "nonneg_dbl (foldl js_add a (v # vs))" using ih by simp
  next
    fix t assume t: "foldl js_add a (v # vs) = Num t"
    then have t': "foldl js_add (js_add a v) vs = Num t" by simp
    with ih obtain s where s: "js_add a v = Num s" "s \<le> t"
      and rest: "\<forall>u\<in>set vs. \<exists>y. u = Num y \<and> y \<le> t" by blast
    from step s(1) obtain x y where xy: "a = Num x" "v = Num y" "x \<le> s" "y \<le> s" by blast
    show "\<exists>x. a = Num x \<and> x \<le> t" using xy s by auto
    show "\<forall>u\<in>set (v # vs). \<exists>y. u = Num y \<and> y \<le> t" using xy s rest by auto
  qed
qed

lemma nonneg_dbl_Num: "nonneg_dbl (Num r) \<Longrightarrow> 0 \<le> r"
  using dbl_min_pos by (auto simp: nonneg_dbl_def)

lemma timeDecayWeights_unit:
  assumes "w \<in> set (timeDecayWeights nw tps h)"
  shows "unit_weight w"
proof -
  define hl where "hl = js_mul (js_mul (js_mul (js_mul (Num h) (Num 24)) (Num 60)) (Num 60)) (Num 1000)"
  define raws where "raws = map (\<lambda>tp. js_pow_half (js_div (Num (real_of_int (nw - tp_timestamp tp))) hl)) tps"
  define total where "total = foldl js_add (Num 0) raws"
  from assms have "w \<in> set (map (\<lambda>v. js_div v total) raws)"
    by (auto simp: timeDecayWeights_def Let_def hl_def raws_def total_def split: if_splits)
  then obtain v where v: "v \<in> set raws" and w: "w = js_div v total" by auto
  have each: "\<forall>v\<in>set raws. v = NaN \<or> nonneg_dbl v"
    using pow_half_cases by (auto simp: raws_def)
  show ?thesis
  proof (cases "NaN \<in> set raws")
    case True
    then have "total = NaN" unfolding total_def by (rule foldl_js_add_mem_NaN)
    then show ?thesis by (cases v) (simp_all add: w unit_weight_def)
  next
    case False
    with each have ok: "\<forall>v\<in>set raws. nonneg_dbl v" by metis
    have z: "nonneg_dbl (Num 0)" by (simp add: nonneg_dbl_def)
    note f = foldl_js_add_nonneg [OF z ok, folded total_def]
    from f have "nonneg_dbl total" by blast
    then consider "total = PosInf" | t where "total = Num t" by (auto simp: nonneg_dbl_def)
    then show ?thesis
    proof cases
      case 1
      from ok v have "nonneg_dbl v" by blast
      then show ?thesis by (cases v) (simp_all add: w 1 unit_weight_def nonneg_dbl_def)
    next
      case 2
      with f v obtain y where y: "v = Num y" "y \<le> t" by blast
      from ok v y have y0: "0 \<le> y" using nonneg_dbl_Num by blast
      show ?thesis
      proof (cases "t = 0")
        case True
        with y y0 have "y = 0" by simp
        then show ?thesis by (simp add: w 2 y True unit_weight_def)
      next
        case False
        with y y0 have "0 < t" by simp
        with y y0 have "0 \<le> y / t" "y / t \<le> 1" by simp_all
        from dbl_unit [OF this] show ?thesis using False by (simp add: w 2 y unit_weight_def)
      qed
    qed
  qed
qed

lemma linear_weight_unit: "0 < n \<Longrightarrow> unit_weight (js_div (Num 1) (Num (real n)))"
proof -
  assume "0 < n"
  then have "0 \<le> 1 / real n" "1 / real n \<le> 1" by simp_all
  from dbl_unit [OF this] show ?thesis using \<open>0 < n\<close> by (simp add: unit_weight_def)
qed

lemma set_list_update_subset': "x \<in> set (xs[i := y]) \<Longrightarrow> x = y \<or> x \<in> set xs"
  using set_update_subset_insert by fastforce

lemma calculateWeights_unit:
  assumes "w \<in> set (calculateWeights nw tps cfg)"
  shows "unit_weight w"
proof (cases "model cfg")
  case First_touch
  with assms have "w \<in> set ((replicate (length tps) (Num 0))[0 := Num 1]) \<or> w \<in> set (replicate (length tps) (Num 0))"
    by (auto simp: calculateWeights_def firstTouchWeights_def Let_def split: if_splits)
  then have "w = Num 1 \<or> w = Num 0" by (auto dest: set_list_update_subset')
  then show ?thesis by (auto simp: unit_weight_def)
next
  case Last_touch
  with assms have "w \<in> set ((replicate (length tps) (Num 0))[length tps - 1 := Num 1]) \<or> w \<in> set (replicate (length tps) (Num 0))"
    by (auto simp: calculateWeights_def lastTouchWeights_def Let_def split: if_splits)
  then have "w = Num 1 \<or> w = Num 0" by (auto dest: set_list_update_subset')
  then show ?thesis by (auto simp: unit_weight_def)
next
  case Linear
  with assms have "0 < length tps \<and> w = js_div (Num 1) (Num (real (length tps)))"
    by (auto simp: calculateWeights_def linearWeights_def Let_def split: if_splits)
  then show ?thesis using linear_weight_unit by blast
next
  case Time_decay
  with assms show ?thesis
    by (auto simp: calculateWeights_def Let_def intro: timeDecayWeights_unit)
qed

section \<open>The weight vectors\<close>

lemma length_firstTouchWeights [simp]: "length (firstTouchWeights n) = n"
  by (simp add: firstTouchWeights_def Let_def)

lemma length_lastTouchWeights [simp]: "length (lastTouchWeights n) = n"
  by (simp add: lastTouchWeights_def Let_def)

lemma length_linearWeights [simp]: "length (linearWeights n) = n"
  by (simp add: linearWeights_def Let_def)

lemma length_timeDecayWeights [simp]: "length (timeDecayWeights nw tps h) = length tps"
  by (simp add: timeDecayWeights_def Let_def)

lemma length_calculateWeights: "length (calculateWeights nw tps cfg) = length tps"
  by (simp add: calculateWeights_def Let_def split: AttributionModel.split)

lemma firstTouchWeights_Suc: "firstTouchWeights (Suc n) = Num 1 # replicate n (Num 0)"
  by (simp add: firstTouchWeights_def Let_def)

lemma lastTouchWeights_Suc: "lastTouchWeights (Suc n) = replicate n (Num 0) @ [Num 1]"
proof -
  have "replicate (Suc n) (Num 0) = replicate n (Num 0) @ [Num 0]"
    by (simp add: replicate_append_same)
  then have "(replicate (Suc n) (Num 0))[n := Num 1] = replicate n (Num 0) @ [Num 1]"
    by (metis length_replicate list_update_length)
  then show ?thesis
    by (simp add: lastTouchWeights_def Let_def del: replicate.simps)
qed

lemma linearWeights_in_range:
  assumes "0 < n" and "real n < 2 ^ 1075"
  shows "linearWeights n = replicate n (Num (1 / real n))"
proof -
  have "dbl_min < 1 / real n"
    using assms unfolding dbl_min_def by (intro frac_less2) simp_all
  moreover have "1 / real n < dbl_max"
  proof -
    have "1 / real n \<le> 1" using assms(1) by simp
    then show ?thesis using dbl_max_gt_one by simp
  qed
  ultimately have "dbl (1 / real n) = Num (1 / real n)"
    by (intro dbl_in_range) simp_all
  then show ?thesis using assms(1) by (simp add: linearWeights_def Let_def)
qed

lemma halfLifeOrDefault_cases:
  "halfLifeOrDefault cfg =
     (if timeDecayHalfLife cfg = None \<or> timeDecayHalfLife cfg = Some 0 then 7
      else the (timeDecayHalfLife cfg))"
  by (auto simp: halfLifeOrDefault_def split: option.split)

lemma attributionLoop_pairs:
  "map (\<lambda>e. (utmRecordId e, attributionWeight e))
       (fst (attributionLoop rt c d rv cfg zs (evs, st))) =
   map (\<lambda>e. (utmRecordId e, attributionWeight e)) evs @
   map (\<lambda>(tp, w). (tp_id tp, w)) (filter (\<lambda>(tp, w). js_gt0 w) zs)"
  by (induction zs arbitrary: evs st) (auto simp: Let_def)

lemma attributionLoop_weights:
  "map attributionWeight (fst (attributionLoop rt c d rv cfg zs (evs, st))) =
   map attributionWeight evs @ filter js_gt0 (map snd zs)"
  by (induction zs arbitrary: evs st) (auto simp: Let_def)

lemma attributionLoop_skip:
  "\<forall>z\<in>set zs. \<not> js_gt0 (snd z) \<Longrightarrow>
   attributionLoop rt c d rv cfg zs (evs, st) = (evs, st)"
  by (induction zs arbitrary: evs st) auto

lemma createAttribution_weights:
  assumes "getUTMRecordsByContact st c \<noteq> []"
  shows "map attributionWeight (fst (createAttribution rt st c d rv cfg)) =
         filter js_gt0 (calculateWeights (now rt) (getUTMRecordsByContact st c) cfg)"
  using assms
  by (simp add: createAttribution_def Let_def attributionLoop_weights length_calculateWeights)

lemma createAttribution_pairs:
  assumes "getUTMRecordsByContact st c \<noteq> []"
  shows "map (\<lambda>e. (utmRecordId e, attributionWeight e)) (fst (createAttribution rt st c d rv cfg)) =
         map (\<lambda>(tp, w). (tp_id tp, w))
           (filter (\<lambda>(tp, w). js_gt0 w)
              (zip (getUTMRecordsByContact st c)
                   (calculateWeights (now rt) (getUTMRecordsByContact st c) cfg)))"
  using assms by (simp add: createAttribution_def Let_def attributionLoop_pairs)

lemma createAttribution_no_touchpoints:
  "getUTMRecordsByContact st c = [] \<Longrightarrow> createAttribution rt st c d rv cfg = ([], st)"
  by (simp add: createAttribution_def)

section \<open>Attribution events of one conversion\<close>

text \<open>
  Claim C9. Every event that \<open>createAttribution\<close> returns has a weight that is a
  finite number greater than 0 and at most 1, for every model, clock, half-life and
  touchpoint timestamps; the witness has a touchpoint one week after the clock, whose
  raw weight is 2.
\<close>

theorem createAttribution_weight_bounds:
  "\<forall>e\<in>set (fst (createAttribution rt st c d rv cfg)).
     \<exists>w. attributionWeight e = Num w \<and> 0 < w \<and> w \<le> 1"
proof
  fix e assume e: "e \<in> set (fst (createAttribution rt st c d rv cfg))"
  show "\<exists>w. attributionWeight e = Num w \<and> 0 < w \<and> w \<le> 1"
  proof (cases "getUTMRecordsByContact st c = []")
    case True
    with e show ?thesis by (simp add: createAttribution_def)
  next
    case False
    from e have "attributionWeight e \<in> set (map attributionWeight (fst (createAttribution rt st c d rv cfg)))"
      by simp
    then have m: "attributionWeight e \<in> set (calculateWeights (now rt) (getUTMRecordsByContact st c) cfg)"
      and g: "js_gt0 (attributionWeight e)"
      by (simp_all only: createAttribution_weights [OF False] set_filter mem_Collect_eq)
    from calculateWeights_unit [OF m] g show ?thesis
      by (auto simp: unit_weight_def)
  qed
qed

lemma js_examples:
  "js_mul (js_mul (js_mul (js_mul (Num 7) (Num 24)) (Num 60)) (Num 60)) (Num 1000) = Num 604800000"
  "js_mul (js_mul (js_mul (js_mul (Num (- 7)) (Num 24)) (Num 60)) (Num 60)) (Num 1000) = Num (- 604800000)"
  "js_mul (js_mul (js_mul (js_mul (Num 1) (Num 24)) (Num 60)) (Num 60)) (Num 1000) = Num 86400000"
  by (simp_all add: dbl_moderate)

lemma pow_half_underflow: "1075 \<le> x \<Longrightarrow> js_pow_half (Num x) = Num 0"
proof -
  assume x: "1075 \<le> x"
  have "(1 / 2 :: real) powr x \<le> (1 / 2) powr 1075" using x by (intro powr_mono') simp_all
  also have "(1 / 2 :: real) powr 1075 = dbl_min"
    by (simp add: dbl_min_def power_one_over [symmetric] del: power_numeral)
  finally have le: "(1 / 2 :: real) powr x \<le> dbl_min" .
  have pos: "0 < (1 / 2 :: real) powr x" by simp
  have a: "\<not> dbl_max \<le> (1 / 2 :: real) powr x" using le dbl_min_less_max by simp
  have b: "\<not> (1 / 2 :: real) powr x \<le> - dbl_max" using pos dbl_max_gt_one by linarith
  have c: "\<bar>(1 / 2 :: real) powr x\<bar> \<le> dbl_min" using le pos by linarith
  show ?thesis using a b c by (simp add: dbl_def)
qed

lemma pow_half_overflow: "x \<le> - 1024 \<Longrightarrow> js_pow_half (Num x) = PosInf"
proof -
  assume x: "x \<le> - 1024"
  have "(1 / 2 :: real) powr (- 1024) \<le> (1 / 2) powr x" using x by (intro powr_mono') simp_all
  moreover have "(1 / 2 :: real) powr (- 1024) = dbl_max"
    by (simp add: dbl_max_def powr_minus power_one_over [symmetric] inverse_eq_divide del: power_numeral)
  ultimately show ?thesis by (simp add: dbl_def)
qed

lemma touch_records_1 [simp]: "getUTMRecordsByContact touch_store ''contact-1'' = [utm_1, utm_2]"
  by (simp add: getUTMRecordsByContact_def js_sort_def touch_store_def empty_store_def
      utm_1_def utm_2_def utm_3_def example_touchpoint_def)

lemma old_records [simp]: "getUTMRecordsByContact old_store ''contact-1'' = [utm_2000]"
  by (simp add: getUTMRecordsByContact_def js_sort_def old_store_def empty_store_def
      utm_2000_def example_touchpoint_def)

lemma future_weights:
  "calculateWeights 1704672000000 [utm_1, utm_2] (config_of Time_decay) = [Num (1 / 5), Num (4 / 5)]"
  by (simp add: calculateWeights_def timeDecayWeights_def halfLifeOrDefault_def config_of_def
      utm_1_def utm_2_def example_touchpoint_def js_examples dbl_moderate powr_minus)

theorem createAttribution_weight_bounds_witness:
  "map attributionWeight
     (fst (createAttribution example_runtime touch_store ''contact-1'' None (Num 1000)
        (config_of Time_decay))) = [Num (1 / 5), Num (4 / 5)] \<and>
   hd (fst (createAttribution example_runtime touch_store ''contact-1'' None (Num 1000)
        (config_of Time_decay)))
     \<in> set (fst (createAttribution example_runtime touch_store ''contact-1'' None (Num 1000)
        (config_of Time_decay))) \<and>
   attributionWeight
     (hd (fst (createAttribution example_runtime touch_store ''contact-1'' None (Num 1000)
        (config_of Time_decay)))) = Num (1 / 5)"
proof -
  define events where "events = fst (createAttribution example_runtime touch_store ''contact-1''
    None (Num 1000) (config_of Time_decay))"
  have ws: "map attributionWeight events = [Num (1 / 5), Num (4 / 5)]"
    by (simp add: events_def createAttribution_weights future_weights example_runtime_def)
  then have ne: "events \<noteq> []" by auto
  then have m: "hd events \<in> set events" by simp
  from ws ne have h: "attributionWeight (hd events) = Num (1 / 5)" by (cases events) auto
  from createAttribution_weight_bounds
         [of example_runtime touch_store "''contact-1''" None "Num 1000" "config_of Time_decay"]
       m ws h
  show ?thesis unfolding events_def [symmetric] by blast
qed

lemma sort_key_hd_min:
  assumes "xs \<noteq> []"
  shows "hd (sort_key f xs) \<in> set xs \<and> (\<forall>x\<in>set xs. f (hd (sort_key f xs)) \<le> f x)"
proof -
  have s: "sorted (map f (sort_key f xs))" by (rule sorted_sort_key)
  from assms obtain y ys where ys: "sort_key f xs = y # ys"
    by (cases "sort_key f xs") (auto dest: arg_cong [where f = length])
  have "set (y # ys) = set xs" using ys set_sort by metis
  with s ys show ?thesis by auto
qed

text \<open>
  Claim C6. Under \<open>first_touch\<close>, a contact with at least one touchpoint gets exactly
  one event; it is the one stored, its weight is 1, and it points at the first
  touchpoint in ascending order of time, a stored touchpoint of the contact whose
  timestamp no other touchpoint of the contact precedes.
\<close>

theorem first_touch_single_event:
  assumes "model cfg = First_touch" and "getUTMRecordsByContact st c \<noteq> []"
  shows "\<exists>e. createAttribution rt st c d rv cfg = ([e], addAttributionEvent e st) \<and>
             attributionWeight e = Num 1 \<and>
             utmRecordId e = tp_id (hd (getUTMRecordsByContact st c)) \<and>
             hd (getUTMRecordsByContact st c) \<in> set (utmRecords st) \<and>
             tp_contactId (hd (getUTMRecordsByContact st c)) = Some c \<and>
             (\<forall>r\<in>set (utmRecords st). tp_contactId r = Some c \<longrightarrow>
                tp_timestamp (hd (getUTMRecordsByContact st c)) \<le> tp_timestamp r)"
proof -
  obtain tp rest where tps: "getUTMRecordsByContact st c = tp # rest"
    using assms(2) by (cases "getUTMRecordsByContact st c") auto
  have ws: "calculateWeights (now rt) (tp # rest) cfg = Num 1 # replicate (length rest) (Num 0)"
    using assms(1) by (simp add: calculateWeights_def firstTouchWeights_Suc)
  have skip: "\<forall>z\<in>set (zip rest (replicate (length rest) (Num 0))). \<not> js_gt0 (snd z)"
    by (auto dest!: set_zip_rightD)
  have ne: "filter (\<lambda>r. tp_contactId r = Some c) (utmRecords st) \<noteq> []"
    using tps by (auto simp: getUTMRecordsByContact_sort_key dest: arg_cong [where f = length])
  have hd: "hd (getUTMRecordsByContact st c) = tp" by (simp add: tps)
  from sort_key_hd_min [OF ne, of tp_timestamp]
  have m: "tp \<in> set (utmRecords st) \<and> tp_contactId tp = Some c \<and>
           (\<forall>r\<in>set (utmRecords st). tp_contactId r = Some c \<longrightarrow> tp_timestamp tp \<le> tp_timestamp r)"
    using hd by (auto simp: getUTMRecordsByContact_sort_key)
  show ?thesis
    unfolding hd using m
    by (simp add: createAttribution_def tps ws Let_def attributionLoop_skip [OF skip])
qed

theorem first_touch_single_event_witness:
  "model (config_of First_touch) = First_touch \<and>
   getUTMRecordsByContact touch_store ''contact-1'' \<noteq> [] \<and>
   (\<exists>e. createAttribution example_runtime touch_store ''contact-1'' None (Num 1000)
          (config_of First_touch) = ([e], addAttributionEvent e touch_store) \<and>
        attributionWeight e = Num 1 \<and> utmRecordId e = ''utm-1'')"
proof -
  have m: "model (config_of First_touch) = First_touch" by (simp add: config_of_def)
  have ne: "getUTMRecordsByContact touch_store ''contact-1'' \<noteq> []" by simp
  from first_touch_single_event [OF m ne, of example_runtime None "Num 1000"]
  show ?thesis using m ne by (auto simp: utm_1_def example_touchpoint_def)
qed

text \<open>
  Claim C1. A contact without touchpoints gets the empty result and an unchanged store
  (lemma \<open>createAttribution_no_touchpoints\<close>), the returned events are the touchpoints
  of positive weight (lemma \<open>createAttribution_pairs\<close>) and, with fresh identifiers,
  they are what the store gains (lemma \<open>createAttribution_store\<close>). The weights of the
  events are to sum to 1 whenever there is a touchpoint. Under \<open>time_decay\<close> they do
  not when the raw weights leave the range of doubles: the one touchpoint of the store
  below is more than 1075 half-lives old, its raw weight is 0, the total is 0, its
  weight is 0 / 0, and no event is emitted.
\<close>

theorem time_decay_old_touchpoint_no_event:
  "getUTMRecordsByContact old_store ''contact-1'' = [utm_2000] \<and>
   calculateWeights (now example_runtime) [utm_2000] (config_of Time_decay) = [NaN] \<and>
   createAttribution example_runtime old_store ''contact-1'' None (Num 1000) (config_of Time_decay)
     = ([], old_store)"
proof -
  have w: "calculateWeights (now example_runtime) [utm_2000] (config_of Time_decay) = [NaN]"
    by (simp add: calculateWeights_def timeDecayWeights_def halfLifeOrDefault_def config_of_def
        example_runtime_def utm_2000_def example_touchpoint_def Let_def dbl_moderate
        pow_half_underflow del: js_pow_half.simps)
  then show ?thesis by (simp add: createAttribution_def)
qed

section \<open>Time decay\<close>

text \<open>
  Claim C5. The weights of \<open>time_decay\<close> are to sum to 1 and to give a more recent
  touchpoint at least the weight of an older one. With a half-life of -7 days, which
  the request schema accepts, the touchpoint that is two weeks older gets 4/5 and the
  recent one 1/5. With a half-life of one day and two touchpoints more than 1075 days
  old both raw weights are 0 and both weights are \<open>NaN\<close>: there is no sum.
\<close>

theorem time_decay_not_recent_first_nor_normalised:
  "tp_timestamp utm_1 < tp_timestamp utm_2 \<and>
   calculateWeights 1705276800000 [utm_1, utm_2] negative_half_life = [Num (4 / 5), Num (1 / 5)] \<and>
   calculateWeights (now example_runtime) [utm_2020a, utm_2020b] one_day_half_life = [NaN, NaN]"
proof -
  have a: "calculateWeights 1705276800000 [utm_1, utm_2] negative_half_life = [Num (4 / 5), Num (1 / 5)]"
    by (simp add: calculateWeights_def timeDecayWeights_def halfLifeOrDefault_def
        negative_half_life_def utm_1_def utm_2_def example_touchpoint_def js_examples
        dbl_moderate powr_minus power2_eq_square)
  have b: "calculateWeights (now example_runtime) [utm_2020a, utm_2020b] one_day_half_life = [NaN, NaN]"
    by (simp add: calculateWeights_def timeDecayWeights_def halfLifeOrDefault_def
        one_day_half_life_def example_runtime_def utm_2020a_def utm_2020b_def
        example_touchpoint_def Let_def dbl_moderate pow_half_underflow del: js_pow_half.simps)
  have "tp_timestamp utm_1 < tp_timestamp utm_2"
    by (simp add: utm_1_def utm_2_def example_touchpoint_def)
  with a b show ?thesis by blast
qed

section \<open>Recalculation\<close>

text \<open>
  Claim C10. For a contact without attribution events, \<open>recalculateAttribution\<close>
  returns the empty list and the store as it was, whatever touchpoints the contact has.
\<close>

theorem recalculate_without_events:
  assumes "getAttributionEventsByContact st c = []"
  shows "recalculateAttribution rt st c cfg = ([], st)"
  using assms by (simp add: recalculateAttribution_def)

theorem recalculate_without_events_witness:
  "getAttributionEventsByContact touch_store ''contact-1'' = [] \<and>
   getUTMRecordsByContact touch_store ''contact-1'' \<noteq> [] \<and>
   recalculateAttribution example_runtime touch_store ''contact-1'' (config_of Linear)
     = ([], touch_store)"
proof -
  have e: "getAttributionEventsByContact touch_store ''contact-1'' = []"
    by (simp add: getAttributionEventsByContact_def touch_store_def empty_store_def)
  from recalculate_without_events [OF e] e show ?thesis by simp
qed

lemma linear_store_events:
  "attributionEvents linear_store =
     [\<lparr>ev_id = ''e'', ev_contactId = ''contact-1'', ev_dealId = None, utmRecordId = ''utm-1'',
       ev_channel = ''Paid Search'', ev_source = ''Paid Search'', ev_sourceDetail = ''Paid Search'',
       attributionModel = Linear, attributionWeight = Num (1 / 2), ev_revenue = Num 1000,
       ev_timestamp = 1704672000000\<rparr>,
      \<lparr>ev_id = ''ee'', ev_contactId = ''contact-1'', ev_dealId = None, utmRecordId = ''utm-2'',
       ev_channel = ''Paid Social'', ev_source = ''Paid Social'', ev_sourceDetail = ''Paid Social'',
       attributionModel = Linear, attributionWeight = Num (1 / 2), ev_revenue = Num 1000,
       ev_timestamp = 1704672000000\<rparr>]"
proof -
  have "createAttribution example_runtime touch_store ''contact-1'' None (Num 1000) (config_of Linear)
        = attributionLoop example_runtime ''contact-1'' None (Num 1000) (config_of Linear)
            [(utm_1, Num (1 / 2)), (utm_2, Num (1 / 2))] ([], touch_store)"
    by (simp add: createAttribution_def calculateWeights_def linearWeights_def config_of_def
        numeral_2_eq_2 dbl_moderate)
  then show ?thesis
    by (simp add: linear_store_def Let_def addAttributionEvent_def example_runtime_def
        config_of_def utm_1_def utm_2_def example_touchpoint_def touch_store_def empty_store_def)
qed

lemma linear_store_records:
  "getUTMRecordsByContact linear_store ''contact-1'' = [utm_1, utm_2]"
proof -
  have "utmRecords linear_store = utmRecords touch_store"
    by (simp add: linear_store_def createAttribution_def calculateWeights_def linearWeights_def
      config_of_def Let_def addAttributionEvent_def dbl_moderate)
  then have "getUTMRecordsByContact linear_store ''contact-1'' = getUTMRecordsByContact touch_store ''contact-1''"
    by (simp add: getUTMRecordsByContact_def)
  then show ?thesis by simp
qed

text \<open>
  Claim C3. After a linear attribution of a revenue of 1000 over two touchpoints the
  contact has two events of revenue 1000 and weight 1/2. The specification's
  \<open>sum(revenue*weight) / sum(weight)\<close> is 1000; \<open>recalculateAttribution\<close> divides the
  unweighted sum of the revenues by the sum of the weights and passes 2000 on.
\<close>

theorem recalculate_revenue_not_weighted:
  "map (\<lambda>e. (ev_revenue e, attributionWeight e))
       (getAttributionEventsByContact linear_store ''contact-1'')
     = [(Num 1000, Num (1 / 2)), (Num 1000, Num (1 / 2))] \<and>
   implied_revenue_spec (getAttributionEventsByContact linear_store ''contact-1'') = Num 1000 \<and>
   map (\<lambda>e. (utmRecordId e, attributionWeight e, ev_revenue e))
       (fst (recalculateAttribution later_runtime linear_store ''contact-1'' (config_of Last_touch)))
     = [(''utm-2'', Num 1, Num 2000)]"
  by (simp add: getAttributionEventsByContact_def linear_store_events implied_revenue_spec_def
      weightedRevenue_def totalWeightOf_def recalculateAttribution_def recalculateRevenue_def
      findDealId_def createAttribution_def linear_store_records calculateWeights_def
      lastTouchWeights_def config_of_def Let_def utm_1_def utm_2_def example_touchpoint_def
      dbl_moderate)

section \<open>Metrics\<close>

text \<open>The guards of \<open>calculateCAC\<close>, \<open>calculateROI\<close> and \<open>calculateROAS\<close>.\<close>

lemma calculateCAC_zero_conversions:
  "getConversions parseDate st options = Num 0 \<Longrightarrow> calculateCAC parseDate st options = Num 0"
  by (simp add: calculateCAC_def)

lemma calculateROI_zero_cost:
  "getTotalCosts st options = Num 0 \<Longrightarrow> calculateROI parseDate st options = Num 0"
  by (simp add: calculateROI_def)

lemma calculateROAS_zero_cost:
  "getTotalCosts st options = Num 0 \<Longrightarrow> calculateROAS parseDate st options = Num 0"
  by (simp add: calculateROAS_def)

lemma dbl_not_NaN [simp]: "dbl r \<noteq> NaN"
  by (simp add: dbl_def)

lemma calculateCAC_finite_operands:
  assumes "getTotalCosts st options = Num c" and "getConversions parseDate st options = Num w"
  shows "calculateCAC parseDate st options \<noteq> NaN"
  using assms by (simp add: calculateCAC_def Let_def)

lemma calculateROAS_finite_operands:
  assumes "getTotalCosts st options = Num c" and "getTotalRevenue parseDate st options = Num r"
  shows "calculateROAS parseDate st options \<noteq> NaN"
  using assms by (simp add: calculateROAS_def Let_def)

text \<open>
  Claim C8. The apportioned cost in \<open>getContactMetrics\<close> is guarded by the number of
  events of the channel, not by their total weight, which is the divisor. The one
  event of the store below has weight 0: the guard passes, the division is 0 / 0, and
  the attributed CAC is \<open>NaN\<close>.
\<close>

theorem getContactMetrics_zero_weight_nan:
  "getAttributionEventsByContact zero_weight_store ''contact-1'' = [zero_weight_event] \<and>
   0 < length (getAttributionEventsByChannel zero_weight_store ''Paid Search'') \<and>
   attributedCAC (getContactMetrics zero_weight_store ''contact-1'') = NaN"
  by (simp add: getContactMetrics_def Let_def uniqueOf_def getAttributionEventsByContact_def
      getAttributionEventsByChannel_def getChannelCostsByChannel_def zero_weight_store_def
      empty_store_def zero_weight_event_def paid_search_cost_def dbl_moderate)

section \<open>What the store keeps and gains\<close>

text \<open>
  With at least one existing event, \<open>recalculateAttribution\<close> is \<open>createAttribution\<close> on
  the unchanged store, and an event whose identifier no new identifier repeats is
  still stored afterwards.
\<close>

lemma addAttributionEvent_keeps:
  "x \<in> set (attributionEvents st) \<Longrightarrow> ev_id x \<noteq> ev_id e \<Longrightarrow>
   x \<in> set (attributionEvents (addAttributionEvent e st))"
  by (auto simp: addAttributionEvent_def)

lemma attributionLoop_keeps:
  assumes "x \<in> set (attributionEvents st)" and "\<forall>k. uuid rt k \<noteq> ev_id x"
  shows "x \<in> set (attributionEvents (snd (attributionLoop rt c d rv cfg zs (evs, st))))"
  using assms(1)
proof (induction zs arbitrary: evs st)
  case Nil
  then show ?case by simp
next
  case (Cons z zs)
  obtain tp w where z: "z = (tp, w)" by (cases z)
  show ?case
    unfolding z using Cons.prems assms(2)
    by (auto simp: Let_def intro!: Cons.IH addAttributionEvent_keeps)
qed

lemma recalculateAttribution_keeps:
  assumes "x \<in> set (attributionEvents st)" and "\<forall>k. uuid rt k \<noteq> ev_id x"
  shows "x \<in> set (attributionEvents (snd (recalculateAttribution rt st c cfg)))"
  using assms
  by (auto simp: recalculateAttribution_def createAttribution_def Let_def attributionLoop_keeps)

lemma recalculateAttribution_createAttribution:
  "getAttributionEventsByContact st c \<noteq> [] \<Longrightarrow>
   recalculateAttribution rt st c cfg =
     createAttribution rt st c (findDealId (getAttributionEventsByContact st c))
       (recalculateRevenue (getAttributionEventsByContact st c)) cfg"
  by (simp add: recalculateAttribution_def Let_def)

text \<open>
  When the identifiers that \<open>randomUUID\<close> returns differ from each other and from the
  stored ones, the store gains exactly the returned events, in their order.
\<close>

lemma attributionLoop_store:
  assumes "inj (uuid rt)" and "\<forall>k. uuid rt k \<notin> ev_id ` set base"
    and "attributionEvents st = base @ evs"
    and "map ev_id evs = map (uuid rt) [0..<length evs]"
  shows "attributionEvents (snd (attributionLoop rt c d rv cfg zs (evs, st))) =
           base @ fst (attributionLoop rt c d rv cfg zs (evs, st)) \<and>
         map ev_id (fst (attributionLoop rt c d rv cfg zs (evs, st))) =
           map (uuid rt) [0..<length (fst (attributionLoop rt c d rv cfg zs (evs, st)))]"
  using assms(3,4)
proof (induction zs arbitrary: evs st)
  case Nil
  then show ?case by simp
next
  case (Cons z zs)
  obtain tp w where z: "z = (tp, w)" by (cases z)
  show ?case
  proof (cases "js_gt0 w")
    case False
    then show ?thesis using Cons by (simp add: z)
  next
    case True
    define e where "e = \<lparr>ev_id = uuid rt (length evs), ev_contactId = c, ev_dealId = d,
      utmRecordId = tp_id tp, ev_channel = tp_channel tp, ev_source = tp_source tp,
      ev_sourceDetail = tp_sourceDetail tp, attributionModel = model cfg,
      attributionWeight = w, ev_revenue = rv, ev_timestamp = stamp rt (length evs)\<rparr>"
    have id: "ev_id e = uuid rt (length evs)" by (simp add: e_def)
    have "ev_id e \<notin> ev_id ` set evs"
    proof
      assume "ev_id e \<in> ev_id ` set evs"
      then have "uuid rt (length evs) \<in> set (map ev_id evs)" by (simp add: id)
      then have "uuid rt (length evs) \<in> uuid rt ` {0..<length evs}"
        by (simp add: Cons.prems(2))
      then show False using assms(1) by (auto dest: injD)
    qed
    moreover have "ev_id e \<notin> ev_id ` set base" using assms(2) by (simp add: id)
    ultimately have fresh: "ev_id e \<notin> ev_id ` set (attributionEvents st)"
      by (simp add: Cons.prems(1) image_Un)
    have st': "attributionEvents (addAttributionEvent e st) = base @ (evs @ [e])"
      using fresh by (simp add: addAttributionEvent_def Cons.prems(1))
    have ids: "map ev_id (evs @ [e]) = map (uuid rt) [0..<length (evs @ [e])]"
      by (simp add: Cons.prems(2) id)
    from Cons.IH [OF st' ids] show ?thesis
      using True by (simp add: z Let_def e_def)
  qed
qed

lemma createAttribution_store:
  assumes "inj (uuid rt)" and "\<forall>k. uuid rt k \<notin> ev_id ` set (attributionEvents st)"
  shows "attributionEvents (snd (createAttribution rt st c d rv cfg)) =
         attributionEvents st @ fst (createAttribution rt st c d rv cfg)"
proof (cases "getUTMRecordsByContact st c = []")
  case True
  then show ?thesis by (simp add: createAttribution_def)
next
  case False
  have "attributionEvents st = attributionEvents st @ []" by simp
  moreover have "map ev_id [] = map (uuid rt) [0..<length ([] :: AttributionEvent list)]" by simp
  ultimately show ?thesis
    using attributionLoop_store [OF assms, of st "[]"] False
    by (simp add: createAttribution_def Let_def)
qed

section \<open>Normalization\<close>

lemma normalizeLoop_rule_chain:
  "normalizeLoop regexTest rules p = rule_chain regexTest rules p"
  unfolding rule_chain_def
proof (induction rules arbitrary: p)
  case Nil
  show ?case by simp
next
  case (Cons r rs)
  have "(case p (nr_field r) of None \<Rightarrow> p
         | Some v \<Rightarrow> if v \<noteq> [] \<and> matchesRule regexTest v r
                      then p(nr_field r \<mapsto> normalizedValue r) else p) = rule_step regexTest r p"
    by (cases "p (nr_field r)") (simp_all add: rule_step_def)
  then show ?case by (simp add: Cons.IH)
qed

lemma sorted_desc_sort_key:
  "sorted_wrt (\<lambda>a b. (k b :: real) \<le> k a) (sort_key (\<lambda>x. - k x) xs)"
proof -
  have "sorted (map (\<lambda>x. - k x) (sort_key (\<lambda>x. - k x) xs))" by (rule sorted_sort_key)
  then show ?thesis by (simp add: sorted_map)
qed





section \<open>Cleaning\<close>

lemma rtrim_Cons:
  "rev (dropWhile P (rev (c # cs))) =
     (if P c \<and> (\<forall>x\<in>set cs. P x) then [] else c # rev (dropWhile P (rev cs)))"
  by (auto simp: dropWhile_append)

lemma rtrim_all: "\<forall>x\<in>set cs. P x \<Longrightarrow> rev (dropWhile P (rev cs)) = []"
  by simp

lemma pieces_not_Nil: "pieces s \<noteq> []"
  by (cases s) (auto split: list.split)

lemma spec_words_Cons:
  "spec_words (c # cs) =
     (if is_space c then spec_words cs
      else (c # hd (pieces cs)) # filter (\<lambda>w. w \<noteq> []) (tl (pieces cs)))"
  using pieces_not_Nil [of cs] by (cases "pieces cs") (auto simp: spec_words_def)

lemma spec_words_empty: "(spec_words s = []) = (\<forall>x\<in>set s. is_space x)"
  by (induction s) (auto simp: spec_words_Cons, simp add: spec_words_def)

lemma underscore_join:
  "ws \<noteq> [] \<Longrightarrow> CHR ''_'' # join_underscore ws = concat (map (\<lambda>x. CHR ''_'' # x) ws)"
  by (cases ws) simp_all

lemma replaceSpaces_rtrim:
  "pieces s = p # ps \<Longrightarrow>
   replaceSpaces False (rev (dropWhile is_space (rev s))) =
     p @ concat (map (\<lambda>x. CHR ''_'' # x) (filter (\<lambda>w. w \<noteq> []) ps)) \<and>
   replaceSpaces True (rev (dropWhile is_space (rev s))) =
     join_underscore (filter (\<lambda>w. w \<noteq> []) (p # ps))"
proof (induction s arbitrary: p ps)
  case Nil
  then show ?case by auto
next
  case (Cons c cs)
  obtain p' ps' where cs: "pieces cs = p' # ps'"
    using pieces_not_Nil [of cs] by (cases "pieces cs") auto
  note ih = Cons.IH [OF cs]
  have words: "filter (\<lambda>w. w \<noteq> []) (p' # ps') = spec_words cs"
    by (simp add: spec_words_def cs)
  show ?case
  proof (cases "is_space c")
    case True
    with Cons.prems cs have p: "p = []" and ps: "ps = p' # ps'" by auto
    show ?thesis
    proof (cases "\<forall>x\<in>set cs. is_space x")
      case all: True
      then have "spec_words cs = []" by (simp add: spec_words_empty)
      with words have "filter (\<lambda>w. w \<noteq> []) (p' # ps') = []" by simp
      then have f: "filter (\<lambda>w. w \<noteq> []) ([] # p' # ps') = []"
        and g: "filter (\<lambda>w. w \<noteq> []) (p' # ps') = []" by simp_all
      have r: "rev (dropWhile is_space (rev (c # cs))) = []"
        using True all by (simp only: rtrim_Cons) simp
      show ?thesis unfolding p ps r f g by simp
    next
      case False
      then have "spec_words cs \<noteq> []" by (simp add: spec_words_empty)
      with words have ne: "filter (\<lambda>w. w \<noteq> []) (p' # ps') \<noteq> []" by simp
      have r: "rev (dropWhile is_space (rev (c # cs))) = c # rev (dropWhile is_space (rev cs))"
        using False by (simp only: rtrim_Cons) auto
      show ?thesis
        unfolding p ps r using True ih underscore_join [OF ne]
        by (simp del: filter.simps join_underscore.simps) (simp)
    qed
  next
    case False
    with Cons.prems cs have p: "p = c # p'" and ps: "ps = ps'" by auto
    have r: "rev (dropWhile is_space (rev (c # cs))) = c # rev (dropWhile is_space (rev cs))"
      using False by (simp only: rtrim_Cons) auto
    show ?thesis
      unfolding p ps r using False ih by simp
  qed
qed

lemma spec_words_dropWhile: "spec_words (dropWhile is_space s) = spec_words s"
  by (induction s) (simp_all add: spec_words_Cons)

lemma replaceSpaces_trim: "replaceSpaces False (trim s) = join_underscore (spec_words s)"
proof (cases "dropWhile is_space s")
  case Nil
  then have "\<forall>x\<in>set s. is_space x" by (simp add: dropWhile_eq_Nil_conv)
  then have "spec_words s = []" by (simp add: spec_words_empty)
  then show ?thesis by (simp add: trim_def Nil)
next
  case (Cons c cs)
  then have c: "\<not> is_space c" using hd_dropWhile [of is_space s] by auto
  obtain p' ps' where cs: "pieces cs = p' # ps'"
    using pieces_not_Nil [of cs] by (cases "pieces cs") auto
  have pc: "pieces (c # cs) = (c # p') # ps'" using c cs by simp
  have "replaceSpaces False (trim s) =
          replaceSpaces False (rev (dropWhile is_space (rev (c # cs))))"
    by (simp add: trim_def Cons)
  also have "\<dots> = (c # p') @ concat (map (\<lambda>x. CHR ''_'' # x) (filter (\<lambda>w. w \<noteq> []) ps'))"
    using replaceSpaces_rtrim [OF pc] by blast
  also have "\<dots> = join_underscore (spec_words (c # cs))"
    unfolding spec_words_def pc by simp
  also have "spec_words (c # cs) = spec_words s"
    using spec_words_dropWhile [of s] by (simp add: Cons)
  finally show ?thesis .
qed

lemma allowedChar_iff: "allowedChar c = (c \<in> set spec_charset)"
proof -
  obtain b0 b1 b2 b3 b4 b5 b6 b7 where c: "c = Char b0 b1 b2 b3 b4 b5 b6 b7" by (cases c)
  show ?thesis unfolding c allowedChar_def spec_charset_def
    by (cases b0; cases b1; cases b2; cases b3; cases b4; cases b5; cases b6; cases b7) simp_all
qed

lemma cleanValue_clean_spec: "cleanValue v = clean_spec v"
proof -
  have "allowedChar = (\<lambda>c. c \<in> set spec_charset)"
    by (rule ext) (rule allowedChar_iff)
  then show ?thesis by (simp add: cleanValue_def clean_spec_def replaceSpaces_trim)
qed

text \<open>
  Claim C7, as amended. A field of the output is absent exactly when it is absent or
  empty after the rule chain; otherwise its value is the lowercased value after the
  chain, reduced to its words with one underscore between two of them (the value
  trimmed and every run of whitespace inside it collapsed to one underscore), without
  the characters outside \<open>[a-z0-9_-]\<close>. So every field of the output is a string over
  that class, which may be empty.
\<close>

theorem normalize_output_cleaned:
  "normalize_params regexTest st params key =
     (case rule_chain regexTest (getAllNormalizationRules st) params key of
        None \<Rightarrow> None
      | Some v \<Rightarrow> if v = [] then None else Some (clean_spec v)) \<and>
   (\<forall>w. normalize_params regexTest st params key = Some w \<longrightarrow>
      (\<forall>c\<in>set w. c \<in> set spec_charset))"
proof (intro conjI allI impI)
  show eq: "normalize_params regexTest st params key =
     (case rule_chain regexTest (getAllNormalizationRules st) params key of
        None \<Rightarrow> None
      | Some v \<Rightarrow> if v = [] then None else Some (clean_spec v))"
    by (simp add: normalize_params_def cleanupParams_def normalizeLoop_rule_chain
        cleanValue_clean_spec split: option.split)
  fix w assume "normalize_params regexTest st params key = Some w"
  then obtain u where "w = clean_spec u"
    unfolding eq by (auto split: option.splits if_splits)
  then show "\<forall>c\<in>set w. c \<in> set spec_charset"
    by (simp add: clean_spec_def)
qed

lemma empty_rules: "getAllNormalizationRules empty_store = []"
  by (simp add: getAllNormalizationRules_def js_sort_def empty_store_def)

lemma clean_examples:
  "cleanValue ''  Summer   Sale 2024 '' = ''summer_sale_2024''"
  "cleanValue ''Summer Sale 2024'' = ''summer_sale_2024''"
  "cleanValue ''google!@#'' = ''google''"
  "cleanValue ''!@#'' = []"
  "cleanValue ''meta'' = ''meta''"
  by code_simp+

text \<open>
  Claim C7 as stated fails: a source of \<open>!@#\<close> is present and not empty, every
  character of it is removed, and the output carries the field as the empty string.
\<close>

theorem normalize_empty_field_counterexample:
  "normalize_params no_regex empty_store [Utm_source \<mapsto> ''!@#''] Utm_source = Some []"
  by (simp add: normalize_params_def empty_rules cleanupParams_def clean_examples)

theorem normalize_output_cleaned_witness:
  "normalize_params no_regex empty_store [Utm_campaign \<mapsto> ''  Summer   Sale 2024 ''] Utm_campaign
     = Some ''summer_sale_2024'' \<and>
   normalize_params no_regex empty_store [Utm_campaign \<mapsto> ''  Summer   Sale 2024 ''] Utm_source
     = None \<and>
   list_all (\<lambda>c. c \<in> set spec_charset) ''summer_sale_2024''"
proof -
  note t = normalize_output_cleaned [of no_regex empty_store "[Utm_campaign \<mapsto> ''  Summer   Sale 2024 '']"]
  from t [of Utm_campaign]
  have a: "normalize_params no_regex empty_store [Utm_campaign \<mapsto> ''  Summer   Sale 2024 ''] Utm_campaign
     = Some ''summer_sale_2024''"
    by (simp add: empty_rules rule_chain_def cleanValue_clean_spec [symmetric] clean_examples)
  from t [of Utm_source]
  have b: "normalize_params no_regex empty_store [Utm_campaign \<mapsto> ''  Summer   Sale 2024 ''] Utm_source = None"
    by (simp add: empty_rules rule_chain_def)
  from t [of Utm_campaign] a
  have "\<forall>c\<in>set ''summer_sale_2024''. c \<in> set spec_charset"
    by blast
  then have "list_all (\<lambda>c. c \<in> set spec_charset) ''summer_sale_2024''"
    unfolding list_all_iff .
  with a b show ?thesis by blast
qed

section \<open>Source mapping\<close>

lemma regexMatch_run:
  "regexMatch ts w \<Longrightarrow> \<forall>c\<in>set u. \<not> is_line_terminator c \<Longrightarrow> regexMatch (AnyRun # ts) (u @ w)"
proof (induction u)
  case Nil
  then show ?case by (cases w) simp_all
next
  case (Cons d u)
  then show ?case by simp
qed

lemma wild_matches_regexMatch: "wild_matches ts v \<Longrightarrow> regexMatch ts v"
  by (induction rule: wild_matches.induct) (simp_all add: regexMatch_run)

lemma wild_run_Cons:
  assumes "wild_matches (AnyRun # ts) ds" and "\<not> is_line_terminator d"
  shows "wild_matches (AnyRun # ts) (d # ds)"
  using assms(1)
proof (cases rule: wild_matches.cases)
  case (wild_run w u)
  then have "wild_matches (AnyRun # ts) ((d # u) @ w)"
    using assms(2) by (intro wild_matches.wild_run) auto
  with wild_run show ?thesis by simp
qed

lemma regexMatch_wild_matches: "regexMatch ts v \<Longrightarrow> wild_matches ts v"
proof (induction ts v rule: regexMatch.induct)
  case (1 s)
  then show ?case by (simp add: wild_end)
next
  case (2 c ts)
  then show ?case by simp
next
  case (3 c ts d ds)
  then show ?case by (auto intro: wild_lit)
next
  case (4 ts)
  then have "wild_matches ts []" by simp
  then have "wild_matches (AnyRun # ts) ([] @ [])" by (rule wild_run) simp
  then show ?case by simp
next
  case (5 ts d ds)
  from "5.prems" consider "regexMatch ts (d # ds)"
    | "\<not> is_line_terminator d" "regexMatch (AnyRun # ts) ds" by auto
  then show ?case
  proof cases
    case 1
    then have "wild_matches ts (d # ds)" by (rule "5.IH"(1))
    then have "wild_matches (AnyRun # ts) ([] @ d # ds)" by (rule wild_run) simp
    then show ?thesis by simp
  next
    case 2
    then have "wild_matches (AnyRun # ts) ds" using "5.IH"(2) by simp
    then show ?thesis using 2(1) by (rule wild_run_Cons)
  qed
qed

lemma regexMatch_literal: "regexMatch (map Lit s) v = (v = s)"
proof (induction s arbitrary: v)
  case Nil
  show ?case by simp
next
  case (Cons c s)
  show ?case by (cases v) (auto simp: Cons.IH)
qed

lemma wildcardRegex_literal:
  "CHR ''*'' \<notin> set p \<Longrightarrow> wildcardRegex p = map Lit p"
  by (induction p) (auto simp: wildcardRegex_def)

lemma matchesPattern_wild:
  "matchesPattern v pattern = wild_matches (wildcardRegex (toLowerCase pattern)) v"
proof -
  have "matchesPattern v pattern = regexMatch (wildcardRegex (toLowerCase pattern)) v"
    by (auto simp: matchesPattern_def Let_def wildcardRegex_literal regexMatch_literal)
  then show ?thesis using wild_matches_regexMatch regexMatch_wild_matches by blast
qed

lemma mapToSourceLoop_find:
  "mapToSourceLoop src med ms = map_option resultOf (find (satisfies src med) ms)"
  by (induction ms) (auto simp: satisfies_def split: option.splits)

text \<open>
  Claim C4. \<open>mapToSource\<close> returns the source, source detail and channel of the first
  mapping, in the list of active mappings sorted by descending priority, that is
  satisfied by the lowercased source and medium of the input, with that mapping as
  \<open>matchedMapping\<close>; when no mapping is satisfied it returns the default mapping. A
  mapping is satisfied when the anchored wildcard expression of its lowercased source
  pattern (each star any run of characters, every other character itself) matches the
  source and, when the mapping specifies a medium, the expression of its medium
  pattern matches the medium.
\<close>

theorem mapToSource_first_match:
  "mapToSource st params =
     (case find (satisfies (lowerOr (params Utm_source) []) (lowerOr (params Utm_medium) []))
             (getAllSourceMappings st) of
        Some m \<Rightarrow> \<lparr>res_source = sm_source m, res_sourceDetail = sm_sourceDetail m,
                    res_channel = sm_channel m, matchedMapping = Some m\<rparr>
      | None \<Rightarrow> getDefaultMapping params) \<and>
   set (getAllSourceMappings st) = {m \<in> set (sourceMappings st). sm_isActive m} \<and>
   sorted_wrt (\<lambda>a b. sm_priority b \<le> sm_priority a) (getAllSourceMappings st) \<and>
   satisfies src med mapping =
     (wild_matches (wildcardRegex (toLowerCase (utmSource mapping))) src \<and>
      (case utmMedium mapping of
         None \<Rightarrow> True
       | Some m \<Rightarrow> m = [] \<or> wild_matches (wildcardRegex (toLowerCase m)) med))"
proof (intro conjI)
  show "mapToSource st params =
     (case find (satisfies (lowerOr (params Utm_source) []) (lowerOr (params Utm_medium) []))
             (getAllSourceMappings st) of
        Some m \<Rightarrow> \<lparr>res_source = sm_source m, res_sourceDetail = sm_sourceDetail m,
                    res_channel = sm_channel m, matchedMapping = Some m\<rparr>
      | None \<Rightarrow> getDefaultMapping params)"
    by (simp add: mapToSource_def Let_def mapToSourceLoop_find resultOf_def split: option.split)
  show "set (getAllSourceMappings st) = {m \<in> set (sourceMappings st). sm_isActive m}"
    by (simp add: getAllSourceMappings_sort_key)
  show "sorted_wrt (\<lambda>a b. sm_priority b \<le> sm_priority a) (getAllSourceMappings st)"
    unfolding getAllSourceMappings_sort_key by (rule sorted_desc_sort_key)
  show "satisfies src med mapping =
     (wild_matches (wildcardRegex (toLowerCase (utmSource mapping))) src \<and>
      (case utmMedium mapping of
         None \<Rightarrow> True
       | Some m \<Rightarrow> m = [] \<or> wild_matches (wildcardRegex (toLowerCase m)) med))"
    by (auto simp: satisfies_def matchesPattern_wild split: option.split)
qed

lemma wildcard_mappings:
  "getAllSourceMappings wildcard_store =
     [seed_mapping ''map-8'' ''*.Facebook.com'' None ''Facebook'' ''Web'' ''Social'' 20,
      seed_mapping ''map-1'' ''google'' (Some ''cpc'') ''Google Ads'' ''Search'' ''Paid Search'' 10,
      seed_mapping ''map-2'' ''google'' (Some ''organic'') ''Google'' ''Organic Search'' ''Organic Search'' 10,
      seed_mapping ''map-3'' ''facebook'' (Some ''paid'') ''Facebook'' ''Paid Social'' ''Paid Social'' 10,
      seed_mapping ''map-4'' ''facebook'' (Some ''organic'') ''Facebook'' ''Organic Social'' ''Organic Social'' 10,
      seed_mapping ''map-5'' ''linkedin'' (Some ''paid'') ''LinkedIn'' ''Paid Social'' ''Paid Social'' 10,
      seed_mapping ''map-6'' ''email'' None ''Email'' ''Newsletter'' ''Email'' 5,
      seed_mapping ''map-7'' ''direct'' None ''Direct'' ''Direct Traffic'' ''Direct'' 1]"
  by (simp add: getAllSourceMappings_def js_sort_def wildcard_store_def seed_store_def
      empty_store_def seed_mapping_def)

lemma satisfies_seed:
  "satisfies src med (seed_mapping i us um s sd ch p) =
     (matchesPattern src us \<and> (truthy um \<longrightarrow> matchesPattern med (the um)))"
  by (simp add: satisfies_def seed_mapping_def)

lemma match_examples:
  "lowerOr (Some ''Google'') [] = ''google''"
  "lowerOr (Some ''CPC'') [] = ''cpc''"
  "lowerOr (Some ''m.facebook.com'') [] = ''m.facebook.com''"
  "lowerOr None [] = []"
  "\<not> matchesPattern ''google'' ''*.Facebook.com''"
  "matchesPattern ''google'' ''google''"
  "matchesPattern ''cpc'' ''cpc''"
  "matchesPattern ''m.facebook.com'' ''*.Facebook.com''"
  "\<not> matchesPattern ''mxfacebook.com'' ''*.Facebook.com''"
  by code_simp+

theorem mapToSource_first_match_witness:
  "mapToSource wildcard_store [Utm_source \<mapsto> ''Google'', Utm_medium \<mapsto> ''CPC''] =
     \<lparr>res_source = ''Google Ads'', res_sourceDetail = ''Search'', res_channel = ''Paid Search'',
      matchedMapping =
        Some (seed_mapping ''map-1'' ''google'' (Some ''cpc'') ''Google Ads'' ''Search'' ''Paid Search'' 10)\<rparr> \<and>
   mapToSource wildcard_store [Utm_source \<mapsto> ''m.facebook.com''] =
     \<lparr>res_source = ''Facebook'', res_sourceDetail = ''Web'', res_channel = ''Social'',
      matchedMapping =
        Some (seed_mapping ''map-8'' ''*.Facebook.com'' None ''Facebook'' ''Web'' ''Social'' 20)\<rparr>"
proof -
  from mapToSource_first_match [of wildcard_store "[Utm_source \<mapsto> ''Google'', Utm_medium \<mapsto> ''CPC'']"]
  have a: "mapToSource wildcard_store [Utm_source \<mapsto> ''Google'', Utm_medium \<mapsto> ''CPC''] =
     \<lparr>res_source = ''Google Ads'', res_sourceDetail = ''Search'', res_channel = ''Paid Search'',
      matchedMapping =
        Some (seed_mapping ''map-1'' ''google'' (Some ''cpc'') ''Google Ads'' ''Search'' ''Paid Search'' 10)\<rparr>"
    by (simp add: wildcard_mappings satisfies_seed match_examples) (simp add: seed_mapping_def)
  from mapToSource_first_match [of wildcard_store "[Utm_source \<mapsto> ''m.facebook.com'']"]
  have b: "mapToSource wildcard_store [Utm_source \<mapsto> ''m.facebook.com''] =
     \<lparr>res_source = ''Facebook'', res_sourceDetail = ''Web'', res_channel = ''Social'',
      matchedMapping =
        Some (seed_mapping ''map-8'' ''*.Facebook.com'' None ''Facebook'' ''Web'' ''Social'' 20)\<rparr>"
    by (simp add: wildcard_mappings satisfies_seed match_examples) (simp add: seed_mapping_def)
  from a b show ?thesis by blast
qed

end
